theory Spec2Isabelle
  imports Main "HOL-Library.Sublist"
begin

section \<open>Strings and paths\<close>

text \<open>
  A Python \<open>str\<close> is modelled as a \<open>string\<close> whose characters are the code points
  below 256. Paths are POSIX paths (\<open>os.sep = "/"\<close>) and name files textually: two
  spellings of one file (\<open>.\<close>, \<open>..\<close>, doubled separators, links) are different keys.
\<close>

text \<open>\<open>str.replace(old, new)\<close>: the non-overlapping occurrences of \<open>old\<close>, scanned from
  the left, are replaced; an empty \<open>old\<close> matches before every character and at the end.\<close>

function str_replace :: "string \<Rightarrow> string \<Rightarrow> string \<Rightarrow> string" where
  "str_replace old new [] = (if old = [] then new else [])"
| "str_replace old new (c # cs) =
     (if old = [] then new @ c # str_replace old new cs
      else if prefix old (c # cs) then new @ str_replace old new (drop (length old) (c # cs))
      else c # str_replace old new cs)"
  by pat_completeness auto
termination
  by (relation "measure (\<lambda>(old, new, s). length s)") auto

text \<open>\<open>sep.join(xs)\<close>.\<close>

fun str_join :: "string \<Rightarrow> string list \<Rightarrow> string" where
  "str_join sep [] = []"
| "str_join sep [x] = x"
| "str_join sep (x # y # ys) = x @ sep @ str_join sep (y # ys)"

text \<open>\<open>s.split(c)\<close> for a one-character separator: the pieces between the separators,
  never an empty list (the last case below is never reached).\<close>

fun split_on :: "char \<Rightarrow> string \<Rightarrow> string list" where
  "split_on c [] = [[]]"
| "split_on c (x # xs) =
     (case split_on c xs of
        p # ps \<Rightarrow> (if x = c then [] # p # ps else (x # p) # ps)
      | [] \<Rightarrow> [[x]])"

text \<open>\<open>posixpath.join(a, b)\<close>.\<close>

definition path_join :: "string \<Rightarrow> string \<Rightarrow> string" where
  "path_join a b =
     (if prefix ''/'' b then b
      else if a = [] \<or> last a = CHR ''/'' then a @ b
      else a @ ''/'' @ b)"

text \<open>\<open>s.rfind(c)\<close>: the index of the last occurrence, \<open>-1\<close> when there is none.\<close>

fun index_of :: "'a \<Rightarrow> 'a list \<Rightarrow> nat option" where
  "index_of x [] = None"
| "index_of x (y # ys) =
     (if x = y then Some 0 else (case index_of x ys of None \<Rightarrow> None | Some i \<Rightarrow> Some (Suc i)))"

definition rfind :: "char \<Rightarrow> string \<Rightarrow> int" where
  "rfind c s = (case index_of c (rev s) of None \<Rightarrow> - 1 | Some i \<Rightarrow> int (length s) - 1 - int i)"

text \<open>\<open>posixpath.basename(p)\<close>: what follows the last separator.\<close>

definition basename :: "string \<Rightarrow> string" where
  "basename p = drop (nat (rfind CHR ''/'' p + 1)) p"

text \<open>
  \<open>os.path.splitext(p)\<close>: the extension starts at the last dot, when that dot lies in the
  last component and some character of the component before it is not a dot.
\<close>

definition splitext :: "string \<Rightarrow> string \<times> string" where
  "splitext p =
     (let sepIndex = rfind CHR ''/'' p; dotIndex = rfind CHR ''.'' p in
      if dotIndex > sepIndex \<and>
         list_ex (\<lambda>c. c \<noteq> CHR ''.'')
           (take (nat (dotIndex - (sepIndex + 1))) (drop (nat (sepIndex + 1)) p))
      then (take (nat dotIndex) p, drop (nat dotIndex) p)
      else (p, []))"

text \<open>
  \<open>pathlib.PurePosixPath(p)\<close> (Python 3.11): \<open>name\<close> is the last component, empty
  components and \<open>.\<close> dropped; \<open>suffix\<close> starts at the last dot of the name unless
  that dot is its first or its last character; \<open>stem\<close> is the name without the suffix.
\<close>

definition path_name :: "string \<Rightarrow> string" where
  "path_name p =
     (let parts = filter (\<lambda>c. c \<noteq> [] \<and> c \<noteq> ''.'') (split_on CHR ''/'' p) in
      if parts = [] then [] else last parts)"

definition path_suffix :: "string \<Rightarrow> string" where
  "path_suffix p =
     (let name = path_name p; i = rfind CHR ''.'' name in
      if 0 < i \<and> i < int (length name) - 1 then drop (nat i) name else [])"

definition path_stem :: "string \<Rightarrow> string" where
  "path_stem p =
     (let name = path_name p; i = rfind CHR ''.'' name in
      if 0 < i \<and> i < int (length name) - 1 then take (nat i) name else name)"

text \<open>\<open>str.lower()\<close> on the code points below 256: the ASCII capitals and the Latin-1
  capitals (\<open>0xC0\<close> to \<open>0xDE\<close> without the multiplication sign \<open>0xD7\<close>) move up by 32.\<close>

definition char_lower :: "char \<Rightarrow> char" where
  "char_lower c =
     (let n = (of_char c :: nat) in
      if (65 \<le> n \<and> n \<le> 90) \<or> (192 \<le> n \<and> n \<le> 222 \<and> n \<noteq> 215) then char_of (n + 32) else c)"

definition str_lower :: "string \<Rightarrow> string" where
  "str_lower s = map char_lower s"

section \<open>Files, directories and the trace of effects\<close>

text \<open>
  File contents are bytes; \<open>Utf8 s\<close> stands for the bytes that encode the text \<open>s\<close>
  in UTF-8 (what \<open>open(path, "w", encoding="utf-8")\<close> stores).
\<close>

datatype content = Bytes "nat list" | Utf8 string

datatype error =
    FileNotFoundError string
  | FileExistsError string
  | NotADirectoryError string
  | IsADirectoryError string
  | SameFileError string string
  | IndexError
  | BinasciiError
  | ValueError
  | UnidentifiedImageError string
  | RemoteServiceError string

text \<open>One page of the OCR response and its embedded images (\<open>mistralai.models\<close>).\<close>

record ocr_image =
  image_id :: string
  image_base64 :: string

record ocr_page =
  markdown :: string
  images :: "ocr_image list"

record ocr_response =
  pages :: "ocr_page list"

text \<open>Every effect the program performs is appended to the trace, in order.\<close>

datatype event =
    Makedirs string
  | WriteFile string content
  | FilesUpload string content string
  | FilesGetSignedUrl string int
  | OcrProcess string string bool

record world =
  files :: "string \<rightharpoonup> content"
  dirs :: "string set"
  trace :: "event list"

text \<open>
  The path \<open>p\<close> and the paths above it, from the top down: \<open>a\<close>, \<open>a/b\<close>, \<open>a/b/c\<close> for
  \<open>a/b/c\<close>.
\<close>

definition ancestors :: "string \<Rightarrow> string list" where
  "ancestors p =
     filter (\<lambda>a. a \<noteq> []) (map (str_join ''/'') (prefixes (split_on CHR ''/'' p)))"

text \<open>The first path of the list that lies directly below a regular file.\<close>

fun blocked_at :: "string list \<Rightarrow> world \<Rightarrow> string option" where
  "blocked_at (a # b # rest) w =
     (if files w a \<noteq> None then Some b else blocked_at (b # rest) w)"
| "blocked_at [a] w = None"
| "blocked_at [] w = None"

text \<open>
  \<open>os.makedirs(p, exist_ok=True)\<close> creates \<open>p\<close> and its missing ancestors and accepts a
  directory that is already there. It raises \<open>FileExistsError\<close> when \<open>p\<close> is a regular
  file, \<open>NotADirectoryError\<close> (with the path it could not make) when a path above \<open>p\<close> is
  a regular file, and \<open>FileNotFoundError\<close> for the empty path; then nothing is created.
  (Paths are read component by component, as \<open>Path\<close> and \<open>os.path.join\<close> make them:
  without a doubled or a final separator.)
  The event \<open>Makedirs p\<close> records a creation that succeeded. Otherwise the working
  directory is taken to be writable: creating or truncating a file for writing
  succeeds; reading a file that is not there fails.
\<close>

definition makedirs :: "string \<Rightarrow> world \<Rightarrow> (error + unit) \<times> world" where
  "makedirs p w =
     (if p = [] then (Inl (FileNotFoundError p), w)
      else if files w p \<noteq> None then (Inl (FileExistsError p), w)
      else
        (case blocked_at (ancestors p) w of
           Some q \<Rightarrow> (Inl (NotADirectoryError q), w)
         | None \<Rightarrow>
             (Inr (), w\<lparr>dirs := dirs w \<union> set (ancestors p),
                       trace := trace w @ [Makedirs p]\<rparr>)))"

text \<open>\<open>with open(p, "wb") as f: f.write(c)\<close>, and the same in text mode.\<close>

definition write_file :: "string \<Rightarrow> content \<Rightarrow> world \<Rightarrow> world" where
  "write_file p c w = w\<lparr>files := (files w)(p \<mapsto> c), trace := trace w @ [WriteFile p c]\<rparr>"

text \<open>
  \<open>shutil.copy2(src, dst)\<close>: a destination that is a directory receives the file under
  the source's base name; copying a file onto itself is refused; the source is read (it
  must be a file) and the destination written. The call returns the destination.
\<close>

definition copy2 :: "string \<Rightarrow> string \<Rightarrow> world \<Rightarrow> (error + string) \<times> world" where
  "copy2 src dst w =
     (let dst' = (if dst \<in> dirs w then path_join dst (basename src) else dst) in
      if src = dst' \<and> (src \<in> dom (files w) \<or> src \<in> dirs w) then (Inl (SameFileError src dst'), w)
      else
        (case files w src of
           None \<Rightarrow>
             (if src \<in> dirs w then (Inl (IsADirectoryError src), w)
              else (Inl (FileNotFoundError src), w))
         | Some c \<Rightarrow> (Inr dst', write_file dst' c w)))"

section \<open>The standard library's base64 decoder\<close>

text \<open>
  \<open>base64.b64decode(s)\<close> with its default \<open>validate=False\<close>, as CPython 3.11 computes
  it (\<open>binascii.a2b_base64\<close>, not strict): a string with a character outside ASCII is a
  \<open>ValueError\<close>; characters outside the alphabet are skipped; a padding character that
  completes a group ends the decoding; an unfinished group at the end is an error.
  The state of the scan is the position in the group of four, the bits left over
  from the character before, and the count of padding characters seen in a row.
\<close>

definition table_a2b_base64 :: "char \<Rightarrow> nat option" where
  "table_a2b_base64 c =
     index_of c ''ABCDEFGHIJKLMNOPQRSTUVWXYZabcdefghijklmnopqrstuvwxyz0123456789+/''"

fun a2b_base64 :: "string \<Rightarrow> nat \<Rightarrow> nat \<Rightarrow> nat \<Rightarrow> nat list \<Rightarrow> error + nat list" where
  "a2b_base64 [] quad_pos leftchar pads bin_data =
     (if quad_pos \<noteq> 0 then Inl BinasciiError else Inr bin_data)"
| "a2b_base64 (c # cs) quad_pos leftchar pads bin_data =
     (if c = CHR ''='' then
        (if quad_pos \<ge> 2 \<and> quad_pos + (pads + 1) \<ge> 4 then Inr bin_data
         else a2b_base64 cs quad_pos leftchar (if quad_pos \<ge> 2 then pads + 1 else pads) bin_data)
      else
        (case table_a2b_base64 c of
           None \<Rightarrow> a2b_base64 cs quad_pos leftchar pads bin_data
         | Some this_ch \<Rightarrow>
             (if quad_pos = 0 then a2b_base64 cs 1 this_ch 0 bin_data
              else if quad_pos = 1 then
                a2b_base64 cs 2 (this_ch mod 16) 0 (bin_data @ [leftchar * 4 + this_ch div 16])
              else if quad_pos = 2 then
                a2b_base64 cs 3 (this_ch mod 4) 0 (bin_data @ [leftchar * 16 + this_ch div 4])
              else a2b_base64 cs 0 0 0 (bin_data @ [leftchar * 64 + this_ch]))))"

definition base64_b64decode :: "string \<Rightarrow> error + nat list" where
  "base64_b64decode s =
     (if \<exists>c \<in> set s. (of_char c :: nat) \<ge> 128 then Inl ValueError else a2b_base64 s 0 0 0 [])"

section \<open>Result assembly\<close>

text \<open>
  A \<open>dict\<close> keeps its keys in insertion order; assigning to a key that is present
  replaces the value where it stands.
\<close>

type_synonym dict = "(string \<times> string) list"

fun dict_set :: "string \<Rightarrow> string \<Rightarrow> dict \<Rightarrow> dict" where
  "dict_set k v [] = [(k, v)]"
| "dict_set k v ((k', v') # d) = (if k' = k then (k, v) # d else (k', v') # dict_set k v d)"

text \<open>\<open>replace_images_in_markdown\<close>, lines 64-67: one \<open>str.replace\<close> per item of the
  dictionary, each on the result of the one before.\<close>

fun replace_images_in_markdown :: "string \<Rightarrow> dict \<Rightarrow> string" where
  "replace_images_in_markdown markdown_str [] = markdown_str"
| "replace_images_in_markdown markdown_str ((img_name, img_path) # images_dict) =
     replace_images_in_markdown
       (str_replace (''!['' @ img_name @ '']('' @ img_name @ '')'')
                    (''!['' @ img_name @ '']('' @ img_path @ '')'') markdown_str)
       images_dict"

text \<open>\<open>img.image_base64.split(",")[1]\<close>, line 91: the second piece; a string without a comma
  has one piece only and the subscript raises.\<close>

definition payload_data :: "string \<Rightarrow> error + string" where
  "payload_data s = (case split_on CHR '','' s of _ # d # _ \<Rightarrow> Inr d | _ \<Rightarrow> Inl IndexError)"

text \<open>
  The loop over \<open>page.images\<close>, lines 90-95. The decoder \<open>base64.b64decode\<close> of the
  standard library is the parameter \<open>b64decode\<close>. An exception leaves the loop with the
  world as it is at that point.
\<close>

fun save_page_images ::
  "(string \<Rightarrow> error + nat list) \<Rightarrow> string \<Rightarrow> ocr_image list \<Rightarrow> dict \<Rightarrow> world
     \<Rightarrow> (error + dict) \<times> world" where
  "save_page_images b64decode images_dir [] page_images w = (Inr page_images, w)"
| "save_page_images b64decode images_dir (img # imgs) page_images w =
     (case payload_data (image_base64 img) of
        Inl e \<Rightarrow> (Inl e, w)
      | Inr d \<Rightarrow>
         (case b64decode d of
            Inl e \<Rightarrow> (Inl e, w)
          | Inr img_data \<Rightarrow>
              save_page_images b64decode images_dir imgs
                (dict_set (image_id img) (''images/'' @ image_id img @ ''.png'') page_images)
                (write_file (path_join images_dir (image_id img @ ''.png'')) (Bytes img_data) w)))"

text \<open>The loop over \<open>ocr_response.pages\<close>, lines 88-98.\<close>

fun save_pages ::
  "(string \<Rightarrow> error + nat list) \<Rightarrow> string \<Rightarrow> ocr_page list \<Rightarrow> string list \<Rightarrow> world
     \<Rightarrow> (error + string list) \<times> world" where
  "save_pages b64decode images_dir [] all_markdowns w = (Inr all_markdowns, w)"
| "save_pages b64decode images_dir (page # rest) all_markdowns w =
     (case save_page_images b64decode images_dir (images page) [] w of
        (Inl e, w') \<Rightarrow> (Inl e, w')
      | (Inr page_images, w') \<Rightarrow>
          save_pages b64decode images_dir rest
            (all_markdowns @ [replace_images_in_markdown (markdown page) page_images]) w')"

text \<open>\<open>save_ocr_results\<close>, lines 83-104.\<close>

definition save_ocr_results ::
  "(string \<Rightarrow> error + nat list) \<Rightarrow> ocr_response \<Rightarrow> string \<Rightarrow> world
     \<Rightarrow> (error + string \<times> string) \<times> world" where
  "save_ocr_results b64decode ocr_response output_dir w =
     (let images_dir = path_join output_dir ''images'' in
      case makedirs images_dir w of
        (Inl e, w0) \<Rightarrow> (Inl e, w0)
      | (Inr _, w0) \<Rightarrow>
          (case save_pages b64decode images_dir (pages ocr_response) [] w0 of
             (Inl e, w') \<Rightarrow> (Inl e, w')
           | (Inr all_markdowns, w') \<Rightarrow>
               (let markdown_content = str_join [CHR 0x0A, CHR 0x0A] all_markdowns in
                (Inr (markdown_content, output_dir),
                 write_file (path_join output_dir ''complete.md'') (Utf8 markdown_content) w'))))"

section \<open>Format classification\<close>

definition SUPPORTED_IMAGE_EXTENSIONS :: "string set" where
  "SUPPORTED_IMAGE_EXTENSIONS =
     {''.jpg'', ''.jpeg'', ''.png'', ''.gif'', ''.bmp'', ''.tiff'', ''.tif'', ''.webp''}"

text \<open>
  \<open>is_image_file\<close>, lines 107-117. \<open>PIL.Image.open\<close> is the parameter \<open>image_open\<close>: it
  raises, or gives the image, of which only \<open>format\<close> (a name or \<open>None\<close>) is read. The
  \<open>except Exception\<close> clause turns every error of the call into \<open>False\<close>.
\<close>

definition is_image_file :: "(string \<Rightarrow> error + string option) \<Rightarrow> string \<Rightarrow> bool" where
  "is_image_file image_open file_path =
     (let ext = snd (splitext (str_lower file_path)) in
      if ext \<notin> SUPPORTED_IMAGE_EXTENSIONS then False
      else (case image_open file_path of
              Inr format \<Rightarrow> format \<noteq> None
            | Inl e \<Rightarrow> False))"

section \<open>The output directory of a run\<close>

text \<open>\<open>datetime.now()\<close> is a parameter; \<open>strftime("%Y%m%d_%H%M%S")\<close> prints the fields
  down to the second as decimal digits, the year on four places, the others on two.\<close>

record datetime =
  year :: nat
  month :: nat
  day :: nat
  hour :: nat
  minute :: nat
  second :: nat
  microsecond :: nat

definition digit :: "nat \<Rightarrow> char" where
  "digit n = char_of (48 + n mod 10)"

definition strftime :: "datetime \<Rightarrow> string" where
  "strftime t =
     [digit (year t div 1000), digit (year t div 100), digit (year t div 10), digit (year t)] @
     [digit (month t div 10), digit (month t)] @
     [digit (day t div 10), digit (day t)] @ ''_'' @
     [digit (hour t div 10), digit (hour t)] @
     [digit (minute t div 10), digit (minute t)] @
     [digit (second t div 10), digit (second t)]"

text \<open>\<open>create_output_directory\<close>, lines 70-80. Either \<open>os.makedirs\<close> may raise.\<close>

definition create_output_directory ::
  "datetime \<Rightarrow> string \<Rightarrow> world \<Rightarrow> (error + string) \<times> world" where
  "create_output_directory now original_file_path w =
     (let outputs_base = ''outputs'' in
      case makedirs outputs_base w of
        (Inl e, w1) \<Rightarrow> (Inl e, w1)
      | (Inr _, w1) \<Rightarrow>
          (let timestamp = strftime now;
               output_dir =
                 path_join outputs_base (timestamp @ ''_'' @ path_stem original_file_path)
           in case makedirs output_dir w1 of
                (Inl e, w2) \<Rightarrow> (Inl e, w2)
              | (Inr _, w2) \<Rightarrow> (Inr output_dir, w2)))"

section \<open>The remote OCR client\<close>

text \<open>
  The three calls of the \<open>mistralai\<close> client that \<open>process_pdf\<close> makes. Each is a
  parameter: it raises or returns (the identifier of the upload, the signed URL, the
  response). \<open>Mistral(api_key=...)\<close> builds the client from the key.
\<close>

record mistral_client =
  files_upload :: "string \<Rightarrow> content \<Rightarrow> string \<Rightarrow> error + string"
  files_get_signed_url :: "string \<Rightarrow> int \<Rightarrow> error + string"
  ocr_process :: "string \<Rightarrow> string \<Rightarrow> bool \<Rightarrow> error + ocr_response"

definition remote_call :: "event \<Rightarrow> world \<Rightarrow> world" where
  "remote_call ev w = w\<lparr>trace := trace w @ [ev]\<rparr>"

text \<open>Lines 159-162 of \<open>process_pdf\<close>: without an output directory, one is created and
  the document copied into it as \<open>origin\<close> with the document's suffix. An error of the
  creation or of the copy ends the call.\<close>

definition process_pdf_prepare ::
  "datetime \<Rightarrow> string \<Rightarrow> string option \<Rightarrow> world \<Rightarrow> (error + string) \<times> world" where
  "process_pdf_prepare now pdf_path output_dir w =
     (case output_dir of
        Some d \<Rightarrow> (Inr d, w)
      | None \<Rightarrow>
          (case create_output_directory now pdf_path w of
             (Inl e, w1) \<Rightarrow> (Inl e, w1)
           | (Inr d, w1) \<Rightarrow>
               (let origin_file = path_join d (''origin'' @ path_suffix pdf_path)
                in case copy2 pdf_path origin_file w1 of
                     (Inl e, w2) \<Rightarrow> (Inl e, w2)
                   | (Inr _, w2) \<Rightarrow> (Inr d, w2))))"

text \<open>
  \<open>process_pdf\<close>, lines 157-184. \<open>Path.is_file\<close> holds of the regular files; the error
  raised on line 168 carries the path (after a fixed text). Each remote call is
  recorded when it is made, whatever it answers.
\<close>

definition process_pdf ::
  "(string \<Rightarrow> mistral_client) \<Rightarrow> (string \<Rightarrow> error + nat list) \<Rightarrow> datetime
     \<Rightarrow> string \<Rightarrow> string \<Rightarrow> string option \<Rightarrow> world
     \<Rightarrow> (error + string \<times> string) \<times> world" where
  "process_pdf Mistral b64decode now pdf_path api_key output_dir w =
     (case process_pdf_prepare now pdf_path output_dir w of
        (Inl e, w1) \<Rightarrow> (Inl e, w1)
      | (Inr output_dir', w1) \<Rightarrow>
          (let client = Mistral api_key in
           case files w1 pdf_path of
             None \<Rightarrow> (Inl (FileNotFoundError pdf_path), w1)
           | Some read_bytes \<Rightarrow>
               (let w2 = remote_call (FilesUpload (path_stem pdf_path) read_bytes ''ocr'') w1 in
                case files_upload client (path_stem pdf_path) read_bytes ''ocr'' of
                  Inl e \<Rightarrow> (Inl e, w2)
                | Inr uploaded_file_id \<Rightarrow>
                    (let w3 = remote_call (FilesGetSignedUrl uploaded_file_id 1) w2 in
                     case files_get_signed_url client uploaded_file_id 1 of
                       Inl e \<Rightarrow> (Inl e, w3)
                     | Inr signed_url \<Rightarrow>
                         (let w4 = remote_call (OcrProcess signed_url ''mistral-ocr-latest'' True) w3 in
                          case ocr_process client signed_url ''mistral-ocr-latest'' True of
                            Inl e \<Rightarrow> (Inl e, w4)
                          | Inr pdf_response \<Rightarrow>
                              save_ocr_results b64decode pdf_response output_dir' w4)))))"

section \<open>Notions used to state the properties\<close>

text \<open>The path of an image as the rewritten text refers to it.\<close>

definition image_ref_path :: "string \<Rightarrow> string" where
  "image_ref_path k = ''images/'' @ k @ ''.png''"

text \<open>The image identifiers of a page, each once, in the order of their first occurrence.\<close>

definition page_image_ids :: "ocr_page \<Rightarrow> string list" where
  "page_image_ids p = rev (remdups (rev (map image_id (images p))))"

text \<open>One \<open>str.replace\<close> of \<open>![k](k)\<close> by \<open>![k](images/k.png)\<close> for each identifier in turn.\<close>

definition rewrite_refs :: "string list \<Rightarrow> string \<Rightarrow> string" where
  "rewrite_refs ks s =
     fold (\<lambda>k. str_replace (''!['' @ k @ '']('' @ k @ '')'') (''!['' @ k @ ''](images/'' @ k @ ''.png)'')) ks s"

text \<open>The separator between two pages: a blank line.\<close>

definition blank_line :: string where
  "blank_line = [CHR 0x0A, CHR 0x0A]"

text \<open>Inputs of the examples.\<close>

definition empty_world :: world where
  "empty_world = \<lparr>files = Map.empty, dirs = {}, trace = []\<rparr>"

definition img1 :: ocr_image where
  "img1 = \<lparr>image_id = ''img1'', image_base64 = ''data:image/png;base64,aGk=''\<rparr>"

definition two_page_response :: ocr_response where
  "two_page_response =
     \<lparr>pages = [\<lparr>markdown = ''A'', images = [img1]\<rparr>,
               \<lparr>markdown = ''B ![img1](img1)'', images = []\<rparr>]\<rparr>"

definition two_page_response_own :: ocr_response where
  "two_page_response_own =
     \<lparr>pages = [\<lparr>markdown = ''A'', images = [img1]\<rparr>,
               \<lparr>markdown = ''B ![img1](img1)'', images = [img1]\<rparr>]\<rparr>"

definition text_only_response :: ocr_response where
  "text_only_response =
     \<lparr>pages = [\<lparr>markdown = ''one'', images = []\<rparr>,
               \<lparr>markdown = ''![x](x)'', images = []\<rparr>,
               \<lparr>markdown = ''one'', images = []\<rparr>]\<rparr>"

text \<open>All the images of a response, page after page.\<close>

definition all_images :: "ocr_response \<Rightarrow> ocr_image list" where
  "all_images r = concat (map images (pages r))"

text \<open>
  What saving one image amounts to: the payload is some text without a comma, a comma,
  the data (without a comma), and then nothing or a comma and more; the data decode to
  bytes, and the event is the writing of these bytes to the image's file.
\<close>

definition image_saved ::
  "(string \<Rightarrow> error + nat list) \<Rightarrow> string \<Rightarrow> ocr_image \<Rightarrow> event \<Rightarrow> bool" where
  "image_saved b64decode images_dir img ev =
     (\<exists>head data rest bytes.
        image_base64 img = head @ CHR '','' # data @ rest \<and>
        CHR '','' \<notin> set head \<and> CHR '','' \<notin> set data \<and> (rest = [] \<or> hd rest = CHR '','') \<and>
        b64decode data = Inr bytes \<and>
        ev = WriteFile (path_join images_dir (image_id img @ ''.png'')) (Bytes bytes))"

text \<open>The portion of a payload after its first comma.\<close>

definition after_first_comma :: "string \<Rightarrow> string" where
  "after_first_comma s = drop 1 (dropWhile (\<lambda>c. c \<noteq> CHR '','') s)"

text \<open>The file of an image, and the paths below a directory.\<close>

definition image_file :: "string \<Rightarrow> string \<Rightarrow> string" where
  "image_file images_dir k = path_join images_dir (k @ ''.png'')"

definition under :: "string \<Rightarrow> string \<Rightarrow> bool" where
  "under d p = prefix (d @ ''/'') p"

definition two_comma_response :: ocr_response where
  "two_comma_response =
     \<lparr>pages = [\<lparr>markdown = ''![i](i)'',
                images = [\<lparr>image_id = ''i'',
                           image_base64 = ''data:image/png;base64,QUJD,REVG''\<rparr>]\<rparr>]\<rparr>"

text \<open>A response whose image identifier is an absolute path.\<close>

definition absolute_id_response :: ocr_response where
  "absolute_id_response =
     \<lparr>pages = [\<lparr>markdown = ''see ![/tmp/x](/tmp/x)'',
                images = [\<lparr>image_id = ''/tmp/x'',
                           image_base64 = ''data:image/png;base64,aGk=''\<rparr>]\<rparr>]\<rparr>"

definition literal_ref_response :: ocr_response where
  "literal_ref_response = \<lparr>pages = [\<lparr>markdown = ''![x](images/x.png)'', images = []\<rparr>]\<rparr>"

definition stale_world :: world where
  "stale_world =
     \<lparr>files = [''out/images/old.png'' \<mapsto> Bytes []], dirs = {''out'', ''out/images''}, trace = []\<rparr>"

text \<open>An answer of \<open>Image.open\<close> for the examples: two images, a text file under an image's
  name, and nothing else on the disk.\<close>

definition sample_image_open :: "string \<Rightarrow> error + string option" where
  "sample_image_open p =
     (if p = ''scan.PNG'' then Inr (Some ''PNG'')
      else if p = ''photo.Jpg'' \<or> p = ''photo.pdf'' then Inr (Some ''JPEG'')
      else if p = ''notes.png'' then Inl (UnidentifiedImageError p)
      else Inl (FileNotFoundError p))"



text \<open>Two readings within the same second, and one in the second that follows.\<close>

definition now0 :: datetime where
  "now0 = \<lparr>year = 2026, month = 11, day = 4, hour = 7, minute = 5, second = 9,
           microsecond = 120000\<rparr>"

definition now1 :: datetime where
  "now1 = \<lparr>year = 2026, month = 11, day = 4, hour = 7, minute = 5, second = 9,
           microsecond = 870000\<rparr>"

definition now2 :: datetime where
  "now2 = \<lparr>year = 2026, month = 11, day = 4, hour = 7, minute = 5, second = 10,
           microsecond = 0\<rparr>"

text \<open>The name of the directory of a run.\<close>

definition run_dir :: "datetime \<Rightarrow> string \<Rightarrow> string" where
  "run_dir now p = ''outputs/'' @ strftime now @ ''_'' @ path_stem p"

text \<open>The remote calls of a trace, in order.\<close>

fun is_remote :: "event \<Rightarrow> bool" where
  "is_remote (FilesUpload n c p) = True"
| "is_remote (FilesGetSignedUrl i h) = True"
| "is_remote (OcrProcess u m b) = True"
| "is_remote (Makedirs p) = False"
| "is_remote (WriteFile p c) = False"

definition remote_calls :: "event list \<Rightarrow> event list" where
  "remote_calls tr = filter is_remote tr"

text \<open>The effects that belong to the assembly in the output directory \<open>d\<close>: creating
  \<open>images\<close>, writing a file below it, writing \<open>complete.md\<close>.\<close>

fun assembly_effect :: "string \<Rightarrow> event \<Rightarrow> bool" where
  "assembly_effect d (WriteFile p c) =
     (p = path_join d ''complete.md'' \<or> under (path_join d ''images'') p)"
| "assembly_effect d (Makedirs p) = (p = path_join d ''images'')"
| "assembly_effect d (FilesUpload n c p) = False"
| "assembly_effect d (FilesGetSignedUrl i h) = False"
| "assembly_effect d (OcrProcess u m b) = False"

text \<open>A service that answers every call, one whose OCR job fails, a disk with one
  document, and a disk whose only entry is a regular file named \<open>outputs\<close>.\<close>

definition sample_client :: "string \<Rightarrow> mistral_client" where
  "sample_client api_key =
     \<lparr>files_upload = (\<lambda>file_name content purpose. Inr (''file-'' @ file_name)),
      files_get_signed_url = (\<lambda>file_id expiry. Inr (''https://signed/'' @ file_id)),
      ocr_process = (\<lambda>url model include_image_base64. Inr two_page_response_own)\<rparr>"

definition failing_client :: "string \<Rightarrow> mistral_client" where
  "failing_client api_key =
     \<lparr>files_upload = (\<lambda>file_name content purpose. Inr (''file-'' @ file_name)),
      files_get_signed_url = (\<lambda>file_id expiry. Inr (''https://signed/'' @ file_id)),
      ocr_process = (\<lambda>url model include_image_base64. Inl (RemoteServiceError ''503''))\<rparr>"

definition pdf_world :: world where
  "pdf_world = \<lparr>files = [''in/doc.pdf'' \<mapsto> Bytes [37, 80, 68, 70]], dirs = {''in''}, trace = []\<rparr>"

definition outputs_file_world :: world where
  "outputs_file_world = \<lparr>files = [''outputs'' \<mapsto> Bytes [37, 80, 68, 70]], dirs = {}, trace = []\<rparr>"

section \<open>The text of the assembled document\<close>

text \<open>
  What \<open>str.replace\<close> does with a pattern that is not empty: a text in which the pattern
  does not occur is returned as it is; otherwise the first occurrence is replaced and
  the replacement goes on in what follows it, so that occurrences that overlap a replaced
  one are not seen.
\<close>

lemma str_replace_absent:
  assumes "old \<noteq> []" and "\<not> sublist old s"
  shows "str_replace old new s = s"
  using assms
proof (induction s)
  case Nil
  then show ?case by simp
next
  case (Cons c cs)
  from Cons.prems(2) have "\<not> prefix old (c # cs)"
    using prefix_imp_sublist by blast
  moreover from Cons.prems(2) have "\<not> sublist old cs"
    by (meson sublist_Cons_right)
  ultimately show ?case using Cons by simp
qed

lemma str_replace_first:
  assumes "old \<noteq> []" and "\<not> sublist old (u @ butlast old)"
  shows "str_replace old new (u @ old @ v) = u @ new @ str_replace old new v"
  using assms
proof (induction u)
  case Nil
  obtain c cs where o: "old @ v = c # cs" using Nil.prems(1) by (cases old) auto
  have "prefix old (c # cs)" using o by (metis prefixI)
  then have "str_replace old new (c # cs) = new @ str_replace old new (drop (length old) (c # cs))"
    using Nil.prems(1) by simp
  then show ?case unfolding o[symmetric] by simp
next
  case (Cons c u)
  have np: "\<not> prefix old (c # u @ old @ v)"
  proof
    assume p: "prefix old (c # u @ old @ v)"
    have "c # u @ old @ v = (c # u @ butlast old) @ (last old # v)"
      using Cons.prems(1) by simp
    with p have "prefix old ((c # u @ butlast old) @ (last old # v))" by simp
    moreover have "length old \<le> length (c # u @ butlast old)" by simp
    ultimately have "prefix old (c # u @ butlast old)"
      by (metis prefix_length_prefix prefixI prefix_order.order_refl append_prefixD prefix_append)
    then have "sublist old ((c # u) @ butlast old)" using prefix_imp_sublist by force
    with Cons.prems(2) show False by simp
  qed
  have "\<not> sublist old (u @ butlast old)"
    using Cons.prems(2) by (simp add: sublist_Cons_right)
  from Cons.IH[OF Cons.prems(1) this] np Cons.prems(1) show ?case by simp
qed

lemma dict_set_map:
  "dict_set k (g k) (map (\<lambda>k. (k, g k)) ks) =
     map (\<lambda>k. (k, g k)) (if k \<in> set ks then ks else ks @ [k])"
  by (induction ks) auto

lemma save_page_images_dict:
  "save_page_images dec d imgs pi w = (Inr pi', w') \<Longrightarrow>
     pi' = fold (\<lambda>img. dict_set (image_id img) (image_ref_path (image_id img))) imgs pi"
  by (induction imgs arbitrary: pi w) (auto simp: image_ref_path_def split: sum.splits)

lemma fold_dict_set_ids:
  "fold (\<lambda>img. dict_set (image_id img) (image_ref_path (image_id img))) imgs [] =
     map (\<lambda>k. (k, image_ref_path k)) (rev (remdups (rev (map image_id imgs))))"
proof (induction imgs rule: rev_induct)
  case Nil
  show ?case by simp
next
  case (snoc x xs)
  then show ?case by (simp add: dict_set_map)
qed

lemma replace_images_rewrite_refs:
  "replace_images_in_markdown s (map (\<lambda>k. (k, image_ref_path k)) ks) = rewrite_refs ks s"
  by (induction ks arbitrary: s) (simp_all add: rewrite_refs_def image_ref_path_def)

lemma save_page_images_own:
  assumes "save_page_images dec d (images p) [] w = (Inr pi, w')"
  shows "replace_images_in_markdown (markdown p) pi = rewrite_refs (page_image_ids p) (markdown p)"
  using save_page_images_dict[OF assms]
  by (simp add: fold_dict_set_ids replace_images_rewrite_refs page_image_ids_def)

lemma save_pages_texts:
  "save_pages dec d ps acc w = (Inr mds, w') \<Longrightarrow>
     mds = acc @ map (\<lambda>p. rewrite_refs (page_image_ids p) (markdown p)) ps"
proof (induction ps arbitrary: acc w)
  case Nil
  then show ?case by simp
next
  case (Cons p ps)
  obtain r w1 where r: "save_page_images dec d (images p) [] w = (r, w1)"
    by (cases "save_page_images dec d (images p) [] w")
  show ?case
  proof (cases r)
    case (Inl e)
    with Cons.prems r show ?thesis by simp
  next
    case (Inr pi)
    with Cons.prems r have
      "save_pages dec d ps (acc @ [replace_images_in_markdown (markdown p) pi]) w1 = (Inr mds, w')"
      by simp
    from Cons.IH[OF this] save_page_images_own[of dec d p w pi w1] r Inr
    show ?thesis by simp
  qed
qed

text \<open>What \<open>os.makedirs\<close> leaves: the world as it was, or the directories made.\<close>

lemma makedirs_cases:
  "makedirs p w = (r, w') \<Longrightarrow>
     (\<exists>e. r = Inl e \<and> w' = w) \<or>
     (r = Inr () \<and>
      w' = w\<lparr>dirs := dirs w \<union> set (ancestors p), trace := trace w @ [Makedirs p]\<rparr>)"
  by (auto simp: makedirs_def split: if_splits option.splits)

lemma makedirs_Inr:
  assumes "makedirs p w = (Inr u, w')"
  shows "files w' = files w" and "trace w' = trace w @ [Makedirs p]"
    and "dirs w' = dirs w \<union> set (ancestors p)"
  using makedirs_cases[OF assms] by auto

lemma makedirs_Inl:
  assumes "makedirs p w = (Inl e, w')"
  shows "w' = w"
  using makedirs_cases[OF assms] by auto

text \<open>What \<open>save_ocr_results\<close> has done when it returns.\<close>

lemma save_ocr_results_Inr:
  assumes "fst (save_ocr_results dec r out w) = Inr (txt, out')"
  shows "\<exists>w0 mds w1.
           makedirs (path_join out ''images'') w = (Inr (), w0) \<and>
           save_pages dec (path_join out ''images'') (pages r) [] w0 = (Inr mds, w1) \<and>
           txt = str_join blank_line mds \<and> out' = out \<and>
           snd (save_ocr_results dec r out w) =
             write_file (path_join out ''complete.md'') (Utf8 txt) w1"
proof -
  let ?d = "path_join out ''images''"
  obtain m w0 where m: "makedirs ?d w = (m, w0)"
    by (cases "makedirs ?d w")
  obtain res w1 where s: "save_pages dec ?d (pages r) [] w0 = (res, w1)"
    by (cases "save_pages dec ?d (pages r) [] w0")
  show ?thesis
  proof (cases m)
    case (Inl e)
    with assms m show ?thesis by (simp add: save_ocr_results_def Let_def)
  next
    case (Inr u)
    note mk = this
    show ?thesis
    proof (cases res)
      case (Inl e)
      with assms m mk s show ?thesis by (simp add: save_ocr_results_def Let_def)
    next
      case (Inr mds)
      with assms m mk s show ?thesis
        by (auto simp: save_ocr_results_def Let_def blank_line_def)
    qed
  qed
qed

lemma save_ocr_results_text:
  assumes "fst (save_ocr_results dec r out w) = Inr (txt, out')"
  shows "txt = str_join blank_line
                 (map (\<lambda>p. rewrite_refs (page_image_ids p) (markdown p)) (pages r))"
proof -
  from save_ocr_results_Inr[OF assms] obtain w0 mds w1 where
    s: "save_pages dec (path_join out ''images'') (pages r) [] w0 = (Inr mds, w1)" and
    t: "txt = str_join blank_line mds"
    by blast
  from save_pages_texts[OF s] t show ?thesis by simp
qed

lemma save_pages_no_images:
  "\<forall>p \<in> set ps. images p = [] \<Longrightarrow>
     save_pages dec d ps acc w = (Inr (acc @ map markdown ps), w)"
  by (induction ps arbitrary: acc) auto

lemma two_page_response_own_result:
  "fst (save_ocr_results base64_b64decode two_page_response_own ''out'' empty_world) =
     Inr (''A'' @ blank_line @ ''B ![img1](images/img1.png)'', ''out'')"
  by (simp add: save_ocr_results_def two_page_response_own_def img1_def payload_data_def
      base64_b64decode_def table_a2b_base64_def path_join_def Let_def blank_line_def
      makedirs_def ancestors_def empty_world_def)

text \<open>
  C1, as amended. The text that \<open>save_ocr_results\<close> returns is the texts of the pages, in
  order, joined by a blank line, where the text of each page has gone through one
  \<open>str.replace\<close> of \<open>![id](id)\<close> by \<open>![id](images/id.png)\<close> for each image identifier of
  that same page (each identifier once, in the order of first occurrence); the images
  of the other pages play no part. So, in the response whose first page has the text
  \<open>A\<close> and the image \<open>img1\<close> and whose second page has the text \<open>B ![img1](img1)\<close>, the
  reference on the second page is rewritten when that page carries \<open>img1\<close> itself
  (the witness), and stays as it is when it does not (the counterexample to C1 as stated).
\<close>

theorem page_text_rewritten_with_own_images:
  assumes "fst (save_ocr_results b64decode r out w) = Inr (txt, out')"
  shows "txt = str_join blank_line
                 (map (\<lambda>p. rewrite_refs (page_image_ids p) (markdown p)) (pages r))"
  using assms by (rule save_ocr_results_text)

theorem page_text_rewritten_with_own_images_witness:
  "fst (save_ocr_results base64_b64decode two_page_response_own ''out'' empty_world) =
     Inr (''A'' @ blank_line @ ''B ![img1](images/img1.png)'', ''out'') \<and>
   ''A'' @ blank_line @ ''B ![img1](images/img1.png)'' =
     str_join blank_line
       (map (\<lambda>p. rewrite_refs (page_image_ids p) (markdown p)) (pages two_page_response_own))"
  using page_text_rewritten_with_own_images [OF two_page_response_own_result]
    two_page_response_own_result
  by simp

theorem two_page_example_counterexample:
  "fst (save_ocr_results base64_b64decode two_page_response ''out'' empty_world) =
     Inr (''A'' @ blank_line @ ''B ![img1](img1)'', ''out'') \<and>
   fst (save_ocr_results base64_b64decode two_page_response ''out'' empty_world) \<noteq>
     Inr (''A'' @ blank_line @ ''B ![img1](images/img1.png)'', ''out'')"
  by (simp add: save_ocr_results_def two_page_response_def img1_def payload_data_def
      base64_b64decode_def table_a2b_base64_def path_join_def Let_def blank_line_def
      makedirs_def ancestors_def empty_world_def)

text \<open>
  C2. When no page of the response has an image, \<open>save_ocr_results\<close> does this and nothing
  else: it creates the \<open>images\<close> directory (an error of this creation is the error of the
  call, and nothing is written), then it returns, and the text it returns is the texts
  of the pages as they are, each page once and in the order of the response, joined by
  a blank line; the same text is what it writes to \<open>complete.md\<close>.
\<close>

theorem pages_without_images_joined:
  assumes "\<forall>p \<in> set (pages r). images p = []"
  shows "save_ocr_results b64decode r out w =
           (case makedirs (path_join out ''images'') w of
              (Inl e, w0) \<Rightarrow> (Inl e, w0)
            | (Inr u, w0) \<Rightarrow>
                (Inr (str_join blank_line (map markdown (pages r)), out),
                 write_file (path_join out ''complete.md'')
                   (Utf8 (str_join blank_line (map markdown (pages r)))) w0))"
  using assms
  by (simp add: save_ocr_results_def Let_def save_pages_no_images blank_line_def
      split: prod.split sum.split)

theorem pages_without_images_joined_witness:
  "map images (pages text_only_response) = [[], [], []] \<and>
   fst (save_ocr_results base64_b64decode text_only_response ''out'' empty_world) =
     Inr (''one'' @ blank_line @ ''![x](x)'' @ blank_line @ ''one'', ''out'')"
proof -
  have h: "\<forall>p \<in> set (pages text_only_response). images p = []"
    by (simp add: text_only_response_def)
  show ?thesis
    using h pages_without_images_joined [OF h, of base64_b64decode "''out''" empty_world]
    by (simp add: text_only_response_def blank_line_def makedirs_def ancestors_def
        path_join_def empty_world_def)
qed

section \<open>The images written by the assembly\<close>

lemma split_on_nonempty: "split_on c s \<noteq> []"
  by (induction s) (auto split: list.splits)

lemma split_on_join: "str_join [c] (split_on c s) = s"
proof (induction s)
  case Nil
  show ?case by simp
next
  case (Cons x xs)
  obtain p ps where ps: "split_on c xs = p # ps"
    using split_on_nonempty[of c xs] by (cases "split_on c xs") auto
  with Cons show ?case by (cases ps) auto
qed

lemma split_on_no_sep: "p \<in> set (split_on c s) \<Longrightarrow> c \<notin> set p"
proof (induction s arbitrary: p)
  case Nil
  then show ?case by simp
next
  case (Cons x xs)
  obtain q qs where qs: "split_on c xs = q # qs"
    using split_on_nonempty[of c xs] by (cases "split_on c xs") auto
  with Cons show ?case by (auto split: if_splits)
qed

lemma payload_data_Inr:
  assumes "payload_data s = Inr d"
  shows "\<exists>head rest. s = head @ CHR '','' # d @ rest \<and> CHR '','' \<notin> set head \<and>
           CHR '','' \<notin> set d \<and> (rest = [] \<or> hd rest = CHR '','')"
proof -
  from assms obtain a more where sp: "split_on CHR '','' s = a # d # more"
    by (auto simp: payload_data_def split: list.splits)
  have a: "CHR '','' \<notin> set a" and d: "CHR '','' \<notin> set d"
    using split_on_no_sep[of _ "CHR '',''" s] sp by auto
  have "s = str_join '','' (a # d # more)"
    using split_on_join[of "CHR '',''" s] sp by simp
  then have s: "s = a @ CHR '','' # d @ (if more = [] then [] else CHR '','' # str_join '','' more)"
    by (cases more) auto
  show ?thesis
    by (rule exI[of _ a], rule exI[of _ "if more = [] then [] else CHR '','' # str_join '','' more"])
       (use s a d in auto)
qed

lemma save_page_images_trace:
  "save_page_images dec d imgs pi w = (Inr pi', w') \<Longrightarrow>
     \<exists>evs. trace w' = trace w @ evs \<and> list_all2 (image_saved dec d) imgs evs"
proof (induction imgs arbitrary: pi w)
  case Nil
  then show ?case by simp
next
  case (Cons img imgs)
  from Cons.prems obtain data bytes where
    pd: "payload_data (image_base64 img) = Inr data" and dec: "dec data = Inr bytes" and
    rest: "save_page_images dec d imgs
             (dict_set (image_id img) (''images/'' @ image_id img @ ''.png'') pi)
             (write_file (path_join d (image_id img @ ''.png'')) (Bytes bytes) w) = (Inr pi', w')"
    by (auto split: sum.splits)
  from Cons.IH[OF rest] obtain evs where
    evs: "trace w' = trace w @ WriteFile (path_join d (image_id img @ ''.png'')) (Bytes bytes) # evs"
      "list_all2 (image_saved dec d) imgs evs"
    by (auto simp: write_file_def)
  have "image_saved dec d img (WriteFile (path_join d (image_id img @ ''.png'')) (Bytes bytes))"
    using payload_data_Inr[OF pd] dec unfolding image_saved_def by blast
  with evs show ?case by auto
qed

lemma save_pages_trace:
  "save_pages dec d ps acc w = (Inr mds, w') \<Longrightarrow>
     \<exists>evs. trace w' = trace w @ evs \<and> list_all2 (image_saved dec d) (concat (map images ps)) evs"
proof (induction ps arbitrary: acc w)
  case Nil
  then show ?case by simp
next
  case (Cons p ps)
  from Cons.prems obtain pi w1 where
    p: "save_page_images dec d (images p) [] w = (Inr pi, w1)" and
    rest: "save_pages dec d ps (acc @ [replace_images_in_markdown (markdown p) pi]) w1 = (Inr mds, w')"
    by (auto split: prod.splits sum.splits)
  from save_page_images_trace[OF p] obtain evs1 where
    e1: "trace w1 = trace w @ evs1" "list_all2 (image_saved dec d) (images p) evs1" by blast
  from Cons.IH[OF rest] obtain evs2 where
    e2: "trace w' = trace w1 @ evs2" "list_all2 (image_saved dec d) (concat (map images ps)) evs2"
    by blast
  show ?case
    by (rule exI[of _ "evs1 @ evs2"]) (use e1 e2 in \<open>simp add: list_all2_appendI\<close>)
qed

lemma split_on_no_sep_id: "c \<notin> set s \<Longrightarrow> split_on c s = [s]"
  by (induction s) auto

lemma split_on_append_sep: "c \<notin> set a \<Longrightarrow> split_on c (a @ c # b) = a # split_on c b"
  by (induction a) (auto simp: split_on_nonempty split: list.splits)

text \<open>A payload with one comma: the data are all that follows it.\<close>

lemma payload_data_one_comma:
  "CHR '','' \<notin> set head \<Longrightarrow> CHR '','' \<notin> set d \<Longrightarrow>
     payload_data (head @ CHR '','' # d) = Inr d \<and> after_first_comma (head @ CHR '','' # d) = d"
  by (induction head)
     (auto simp: payload_data_def split_on_append_sep split_on_no_sep_id after_first_comma_def)

text \<open>A payload without a comma: the subscript raises.\<close>

lemma payload_data_no_comma: "CHR '','' \<notin> set s \<Longrightarrow> payload_data s = Inl IndexError"
  by (simp add: payload_data_def split_on_no_sep_id)

text \<open>The assembly returns when every payload has a comma and its data decode.\<close>

lemma save_page_images_returns:
  "\<forall>img \<in> set imgs. \<exists>d bytes. payload_data (image_base64 img) = Inr d \<and> dec d = Inr bytes \<Longrightarrow>
     \<exists>pi' w'. save_page_images dec dir imgs pi w = (Inr pi', w')"
proof (induction imgs arbitrary: pi w)
  case Nil
  show ?case by simp
next
  case (Cons img imgs)
  from Cons.prems obtain d bytes where
    "payload_data (image_base64 img) = Inr d" "dec d = Inr bytes" by auto
  moreover from Cons.prems have
    "\<forall>img \<in> set imgs. \<exists>d bytes. payload_data (image_base64 img) = Inr d \<and> dec d = Inr bytes"
    by simp
  ultimately show ?case using Cons.IH by simp
qed

lemma save_pages_returns:
  "\<forall>img \<in> set (concat (map images ps)).
      \<exists>d bytes. payload_data (image_base64 img) = Inr d \<and> dec d = Inr bytes \<Longrightarrow>
     \<exists>mds w'. save_pages dec dir ps acc w = (Inr mds, w')"
proof (induction ps arbitrary: acc w)
  case Nil
  show ?case by simp
next
  case (Cons p ps)
  from Cons.prems have
    "\<forall>img \<in> set (images p). \<exists>d bytes. payload_data (image_base64 img) = Inr d \<and> dec d = Inr bytes"
    by simp
  from save_page_images_returns[OF this, of dir "[]" w] obtain pi w1 where
    p: "save_page_images dec dir (images p) [] w = (Inr pi, w1)" by blast
  from Cons.prems have
    "\<forall>img \<in> set (concat (map images ps)).
       \<exists>d bytes. payload_data (image_base64 img) = Inr d \<and> dec d = Inr bytes"
    by simp
  from Cons.IH[OF this] p show ?case by simp
qed

lemma save_ocr_results_returns:
  assumes "fst (makedirs (path_join out ''images'') w) = Inr ()"
    and "\<forall>img \<in> set (all_images r).
      \<exists>d bytes. payload_data (image_base64 img) = Inr d \<and> dec d = Inr bytes"
  shows "\<exists>txt w'. save_ocr_results dec r out w = (Inr (txt, out), w')"
proof -
  obtain w0 where m: "makedirs (path_join out ''images'') w = (Inr (), w0)"
    using assms(1) by (cases "makedirs (path_join out ''images'') w") simp
  from assms(2) have "\<forall>img \<in> set (concat (map images (pages r))).
      \<exists>d bytes. payload_data (image_base64 img) = Inr d \<and> dec d = Inr bytes"
    by (simp add: all_images_def)
  from save_pages_returns[OF this, of "path_join out ''images''" "[]" w0]
  obtain mds w1 where "save_pages dec (path_join out ''images'') (pages r) [] w0 = (Inr mds, w1)"
    by blast
  with m show ?thesis by (simp add: save_ocr_results_def Let_def)
qed

lemma two_page_response_own_trace:
  "trace (snd (save_ocr_results base64_b64decode two_page_response_own ''out'' empty_world)) =
     [Makedirs ''out/images'',
      WriteFile ''out/images/img1.png'' (Bytes [104, 105]),
      WriteFile ''out/images/img1.png'' (Bytes [104, 105]),
      WriteFile ''out/complete.md'' (Utf8 (''A'' @ blank_line @ ''B ![img1](images/img1.png)''))]"
  by (simp add: save_ocr_results_def two_page_response_own_def img1_def payload_data_def
      base64_b64decode_def table_a2b_base64_def path_join_def Let_def blank_line_def
      makedirs_def ancestors_def write_file_def empty_world_def)

lemma images_dir_shape:
  "path_join out ''images'' \<noteq> [] \<and> last (path_join out ''images'') \<noteq> CHR ''/''"
  by (simp add: path_join_def)

lemma image_file_relative:
  assumes "\<not> prefix ''/'' k"
  shows "image_file (path_join out ''images'') k = path_join out ''images'' @ ''/'' @ k @ ''.png''"
proof -
  have "\<not> prefix ''/'' (k @ ''.png'')"
    using assms by (cases k) auto
  then show ?thesis
    using images_dir_shape[of out] by (simp add: image_file_def path_join_def[of "path_join out ''images''"])
qed

text \<open>
  What the assembly does when it returns: it creates the \<open>images\<close> directory, writes one
  file for each embedded image of the response (page after page, image after image),
  and writes \<open>complete.md\<close>. For each image the data are the piece of the payload between
  its first comma and its next comma, or its end; these data are what the decoder is
  given, and the bytes it returns are written to the path that \<open>os.path.join\<close> makes of
  the \<open>images\<close> directory and \<open><imageId>.png\<close>.
\<close>

lemma save_ocr_results_trace:
  assumes "fst (save_ocr_results dec r out w) = Inr (txt, out')"
  shows "\<exists>evs. trace (snd (save_ocr_results dec r out w)) =
                 trace w @ Makedirs (path_join out ''images'') # evs @
                   [WriteFile (path_join out ''complete.md'') (Utf8 txt)] \<and>
               list_all2 (image_saved dec (path_join out ''images'')) (all_images r) evs"
proof -
  from save_ocr_results_Inr[OF assms] obtain w0 mds w1 where
    m: "makedirs (path_join out ''images'') w = (Inr (), w0)" and
    s: "save_pages dec (path_join out ''images'') (pages r) [] w0 = (Inr mds, w1)" and
    w': "snd (save_ocr_results dec r out w) =
           write_file (path_join out ''complete.md'') (Utf8 txt) w1"
    by blast
  from save_pages_trace[OF s] obtain evs where
    "trace w1 = trace w0 @ evs"
    "list_all2 (image_saved dec (path_join out ''images'')) (concat (map images (pages r))) evs"
    by blast
  then show ?thesis
    unfolding w' by (intro exI[of _ evs]) (simp add: write_file_def makedirs_Inr(2)[OF m] all_images_def)
qed

text \<open>
  For a payload in the form of a data URI, which has one comma, the data are the portion
  after the first comma; for an identifier that does not begin with a separator, the
  path is \<open>images/<imageId>.png\<close> in the output directory. So for a response all of whose
  payloads have one comma and none of whose identifiers begins with a separator, the
  files written are, image after image, the decoded portion after the first comma at
  \<open>images/<imageId>.png\<close>.
\<close>

lemma image_saved_data_uri:
  assumes "image_saved dec (path_join out ''images'') img ev"
    and "length (filter (\<lambda>c. c = CHR '','') (image_base64 img)) = 1"
    and "\<not> prefix ''/'' (image_id img)"
  shows "\<exists>bytes. dec (after_first_comma (image_base64 img)) = Inr bytes \<and>
           ev = WriteFile (path_join out ''images'' @ ''/'' @ image_id img @ ''.png'') (Bytes bytes)"
proof -
  from assms(1) obtain head data rest bytes where
    p: "image_base64 img = head @ CHR '','' # data @ rest" and
    h: "CHR '','' \<notin> set head" and d: "CHR '','' \<notin> set data" and
    r: "rest = [] \<or> hd rest = CHR '',''" and
    b: "dec data = Inr bytes" and
    ev: "ev = WriteFile (path_join (path_join out ''images'') (image_id img @ ''.png'')) (Bytes bytes)"
    unfolding image_saved_def by blast
  have "rest = []"
  proof (rule ccontr)
    assume "rest \<noteq> []"
    with r obtain rs where "rest = CHR '','' # rs" by (cases rest) auto
    with assms(2) show False unfolding p by simp
  qed
  with p have p': "image_base64 img = head @ CHR '','' # data" by simp
  have "after_first_comma (image_base64 img) = data"
    unfolding p' using payload_data_one_comma[OF h d] by simp
  moreover have "path_join (path_join out ''images'') (image_id img @ ''.png'') =
      path_join out ''images'' @ ''/'' @ image_id img @ ''.png''"
    using image_file_relative[OF assms(3), of out] by (simp add: image_file_def)
  ultimately show ?thesis using b ev by simp
qed

lemma data_uri_images_written:
  assumes ok: "fst (save_ocr_results dec r out w) = Inr (txt, out')"
    and uri: "\<forall>img \<in> set (all_images r).
                length (filter (\<lambda>c. c = CHR '','') (image_base64 img)) = 1"
    and rel: "\<forall>img \<in> set (all_images r). \<not> prefix ''/'' (image_id img)"
  shows "\<exists>evs. trace (snd (save_ocr_results dec r out w)) =
                 trace w @ Makedirs (path_join out ''images'') # evs @
                   [WriteFile (path_join out ''complete.md'') (Utf8 txt)] \<and>
               list_all2
                 (\<lambda>img ev. \<exists>bytes. dec (after_first_comma (image_base64 img)) = Inr bytes \<and>
                    ev = WriteFile (path_join out ''images'' @ ''/'' @ image_id img @ ''.png'')
                           (Bytes bytes))
                 (all_images r) evs"
proof -
  from save_ocr_results_trace[OF ok] obtain evs where
    t: "trace (snd (save_ocr_results dec r out w)) =
          trace w @ Makedirs (path_join out ''images'') # evs @
            [WriteFile (path_join out ''complete.md'') (Utf8 txt)]" and
    l: "list_all2 (image_saved dec (path_join out ''images'')) (all_images r) evs"
    by blast
  have "list_all2
          (\<lambda>img ev. \<exists>bytes. dec (after_first_comma (image_base64 img)) = Inr bytes \<and>
             ev = WriteFile (path_join out ''images'' @ ''/'' @ image_id img @ ''.png'')
                    (Bytes bytes))
          (all_images r) evs"
    using l
  proof (rule list.rel_mono_strong)
    fix img ev
    assume "img \<in> set (all_images r)" and "image_saved dec (path_join out ''images'') img ev"
    then show "\<exists>bytes. dec (after_first_comma (image_base64 img)) = Inr bytes \<and>
        ev = WriteFile (path_join out ''images'' @ ''/'' @ image_id img @ ''.png'') (Bytes bytes)"
      using uri rel image_saved_data_uri[of dec out img ev] by blast
  qed
  with t show ?thesis by blast
qed

text \<open>A payload with a second comma: the data end there.\<close>

lemma two_comma_payload_example:
  "after_first_comma ''data:image/png;base64,QUJD,REVG'' = ''QUJD,REVG'' \<and>
   base64_b64decode ''QUJD,REVG'' = Inr [65, 66, 67, 68, 69, 70] \<and>
   files (snd (save_ocr_results base64_b64decode two_comma_response ''out'' empty_world))
     ''out/images/i.png'' = Some (Bytes [65, 66, 67])"
  by (simp add: save_ocr_results_def two_comma_response_def payload_data_def
      base64_b64decode_def table_a2b_base64_def path_join_def Let_def
      makedirs_def ancestors_def write_file_def empty_world_def after_first_comma_def)

text \<open>
  C3, at the input where the code departs from it. The response has one image, with the
  identifier \<open>/tmp/x\<close> and a payload in the form of a data URI whose data decode to the
  bytes 104 and 105. The assembly into the directory \<open>out\<close> returns; the decoded bytes are
  the portion of the payload after its first comma, as C3 says, but they are written to
  \<open>/tmp/x.png\<close>: \<open>os.path.join\<close> drops the \<open>images\<close> directory before an absolute second
  part. No file is written at \<open>out/images//tmp/x.png\<close>, nor anywhere below \<open>out/images\<close>,
  while the text of \<open>complete.md\<close> refers to \<open>images//tmp/x.png\<close>.
\<close>

theorem image_with_absolute_identifier:
  "all_images absolute_id_response =
     [\<lparr>image_id = ''/tmp/x'', image_base64 = ''data:image/png;base64,aGk=''\<rparr>] \<and>
   base64_b64decode (after_first_comma ''data:image/png;base64,aGk='') = Inr [104, 105] \<and>
   fst (save_ocr_results base64_b64decode absolute_id_response ''out'' empty_world) =
     Inr (''see ![/tmp/x](images//tmp/x.png)'', ''out'') \<and>
   trace (snd (save_ocr_results base64_b64decode absolute_id_response ''out'' empty_world)) =
     [Makedirs ''out/images'',
      WriteFile ''/tmp/x.png'' (Bytes [104, 105]),
      WriteFile ''out/complete.md'' (Utf8 ''see ![/tmp/x](images//tmp/x.png)'')] \<and>
   files (snd (save_ocr_results base64_b64decode absolute_id_response ''out'' empty_world))
     ''out/images//tmp/x.png'' = None \<and>
   dom (files (snd (save_ocr_results base64_b64decode absolute_id_response ''out'' empty_world))) =
     {''out/complete.md'', ''/tmp/x.png''}"
  by (simp add: save_ocr_results_def absolute_id_response_def all_images_def payload_data_def
      base64_b64decode_def table_a2b_base64_def path_join_def Let_def
      makedirs_def ancestors_def write_file_def empty_world_def after_first_comma_def)

lemma save_page_images_files:
  "save_page_images dec d imgs pi w = (Inr pi', w') \<Longrightarrow>
     dom (files w') = dom (files w) \<union> (\<lambda>img. image_file d (image_id img)) ` set imgs"
proof (induction imgs arbitrary: pi w)
  case Nil
  then show ?case by simp
next
  case (Cons img imgs)
  from Cons.prems obtain bytes where
    rest: "save_page_images dec d imgs
             (dict_set (image_id img) (''images/'' @ image_id img @ ''.png'') pi)
             (write_file (path_join d (image_id img @ ''.png'')) (Bytes bytes) w) = (Inr pi', w')"
    by (auto split: sum.splits)
  from Cons.IH[OF rest] show ?case
    by (auto simp: write_file_def image_file_def)
qed

lemma save_pages_files:
  "save_pages dec d ps acc w = (Inr mds, w') \<Longrightarrow>
     dom (files w') =
       dom (files w) \<union> (\<lambda>img. image_file d (image_id img)) ` set (concat (map images ps))"
proof (induction ps arbitrary: acc w)
  case Nil
  then show ?case by simp
next
  case (Cons p ps)
  from Cons.prems obtain pi w1 where
    p: "save_page_images dec d (images p) [] w = (Inr pi, w1)" and
    rest: "save_pages dec d ps (acc @ [replace_images_in_markdown (markdown p) pi]) w1 = (Inr mds, w')"
    by (auto split: prod.splits sum.splits)
  from save_page_images_files[OF p] Cons.IH[OF rest] show ?case
    by auto
qed

lemma save_ocr_results_files:
  assumes "fst (save_ocr_results dec r out w) = Inr (txt, out')"
  shows "dom (files (snd (save_ocr_results dec r out w))) =
           insert (path_join out ''complete.md'')
             (dom (files w) \<union>
              (\<lambda>img. image_file (path_join out ''images'') (image_id img)) ` set (all_images r))"
proof -
  from save_ocr_results_Inr[OF assms] obtain w0 mds w1 where
    m: "makedirs (path_join out ''images'') w = (Inr (), w0)" and
    s: "save_pages dec (path_join out ''images'') (pages r) [] w0 = (Inr mds, w1)" and
    w': "snd (save_ocr_results dec r out w) =
           write_file (path_join out ''complete.md'') (Utf8 txt) w1"
    by blast
  from save_pages_files[OF s] show ?thesis
    unfolding w' by (simp add: write_file_def makedirs_Inr(1)[OF m] all_images_def)
qed

lemma complete_not_under_images:
  "\<not> under (path_join out ''images'') (path_join out ''complete.md'')"
  by (simp add: under_def path_join_def)

text \<open>
  C4, as amended. Let no file be below the \<open>images\<close> directory of the output directory
  before the assembly, and let no image identifier of the response contain a
  separator. When \<open>save_ocr_results\<close> returns, the number of files below \<open>images\<close> is the
  number of distinct image identifiers of the response, and every image identifier of
  the response has its file \<open>images/<id>.png\<close> there: a reference
  \<open>![id](images/id.png)\<close> of the final text to an image of the response is not dangling.
\<close>

theorem image_files_match_identifiers:
  assumes ok: "fst (save_ocr_results b64decode r out w) = Inr (txt, out')"
    and fresh: "\<forall>p \<in> dom (files w). \<not> under (path_join out ''images'') p"
    and plain: "\<forall>img \<in> set (all_images r). CHR ''/'' \<notin> set (image_id img)"
  shows "card {p \<in> dom (files (snd (save_ocr_results b64decode r out w))).
                 under (path_join out ''images'') p} =
           card (image_id ` set (all_images r)) \<and>
         (\<forall>k \<in> image_id ` set (all_images r).
            image_file (path_join out ''images'') k
              \<in> dom (files (snd (save_ocr_results b64decode r out w))) \<and>
            under (path_join out ''images'') (image_file (path_join out ''images'') k))"
proof -
  let ?d = "path_join out ''images''"
  let ?ids = "image_id ` set (all_images r)"
  let ?w' = "snd (save_ocr_results b64decode r out w)"
  have rel: "\<forall>img \<in> set (all_images r). \<not> prefix ''/'' (image_id img)"
    using plain by (auto simp: prefix_def)
  have dom: "dom (files ?w') =
      insert (path_join out ''complete.md'') (dom (files w) \<union> image_file ?d ` ?ids)"
    using save_ocr_results_files[OF ok] by (simp add: image_comp comp_def)
  have under_img: "under ?d (image_file ?d k)" if "k \<in> ?ids" for k
    using that rel by (auto simp: image_file_relative under_def)
  have eq: "{p \<in> dom (files ?w'). under ?d p} = image_file ?d ` ?ids"
    using dom fresh under_img complete_not_under_images[of out] by auto
  have inj: "inj_on (image_file ?d) ?ids"
    using rel by (auto simp: inj_on_def image_file_relative)
  have "card {p \<in> dom (files ?w'). under ?d p} = card ?ids"
    unfolding eq by (rule card_image[OF inj])
  moreover have "\<forall>k \<in> ?ids. image_file ?d k \<in> dom (files ?w') \<and> under ?d (image_file ?d k)"
    using dom under_img by auto
  ultimately show ?thesis by blast
qed

theorem image_files_match_identifiers_witness:
  "card {p \<in> dom (files (snd (save_ocr_results base64_b64decode two_page_response_own ''out''
                                  empty_world))).
           under (path_join ''out'' ''images'') p} = 1 \<and>
   ''out/images/img1.png''
     \<in> dom (files (snd (save_ocr_results base64_b64decode two_page_response_own ''out''
                           empty_world)))"
proof -
  have fresh: "\<forall>p \<in> dom (files empty_world). \<not> under (path_join ''out'' ''images'') p"
    by (simp add: empty_world_def)
  have rel: "\<forall>img \<in> set (all_images two_page_response_own). CHR ''/'' \<notin> set (image_id img)"
    by (simp add: all_images_def two_page_response_own_def img1_def)
  have ids: "image_id ` set (all_images two_page_response_own) = {''img1''}"
    by (simp add: all_images_def two_page_response_own_def img1_def)
  have img_file: "image_file (path_join ''out'' ''images'') ''img1'' = ''out/images/img1.png''"
    by (simp add: image_file_def path_join_def)
  from image_files_match_identifiers [OF two_page_response_own_result fresh rel]
  show ?thesis
    unfolding ids by (simp add: img_file)
qed

theorem stale_file_and_literal_reference_counterexample:
  "all_images literal_ref_response = [] \<and>
   fst (save_ocr_results base64_b64decode literal_ref_response ''out'' stale_world) =
     Inr (''![x](images/x.png)'', ''out'') \<and>
   files (snd (save_ocr_results base64_b64decode literal_ref_response ''out'' stale_world))
     ''out/images/x.png'' = None \<and>
   files (snd (save_ocr_results base64_b64decode literal_ref_response ''out'' stale_world))
     ''out/images/old.png'' = Some (Bytes []) \<and>
   under (path_join ''out'' ''images'') ''out/images/old.png''"
  by (simp add: save_ocr_results_def literal_ref_response_def all_images_def path_join_def
      Let_def makedirs_def ancestors_def write_file_def stale_world_def under_def)

section \<open>Format classification: properties\<close>

lemma char_lower_eq_ascii:
  assumes "(of_char k :: nat) < 65"
  shows "char_lower c = k \<longleftrightarrow> c = k"
proof
  assume "c = k"
  with assms show "char_lower c = k" by (simp add: char_lower_def Let_def)
next
  assume a: "char_lower c = k"
  show "c = k"
  proof (rule ccontr)
    assume "c \<noteq> k"
    with a have up: "(65 \<le> (of_char c :: nat) \<and> (of_char c :: nat) \<le> 90) \<or>
        (192 \<le> (of_char c :: nat) \<and> (of_char c :: nat) \<le> 222 \<and> (of_char c :: nat) \<noteq> 215)"
      and k: "k = char_of ((of_char c :: nat) + 32)"
      by (auto simp: char_lower_def Let_def split: if_splits)
    from k have "(of_char k :: nat) = ((of_char c :: nat) + 32) mod 256" by simp
    with up assms show False by auto
  qed
qed

lemma char_lower_dot: "char_lower c = CHR ''.'' \<longleftrightarrow> c = CHR ''.''"
  by (rule char_lower_eq_ascii) simp

lemma char_lower_sep: "char_lower c = CHR ''/'' \<longleftrightarrow> c = CHR ''/''"
  by (rule char_lower_eq_ascii) simp

lemma index_of_map:
  assumes "f c = c" and "\<And>x. f x = c \<Longrightarrow> x = c"
  shows "index_of c (map f xs) = index_of c xs"
proof (induction xs)
  case Nil
  show ?case by simp
next
  case (Cons x xs)
  show ?case
  proof (cases "x = c")
    case True
    with assms(1) show ?thesis by simp
  next
    case False
    with assms(2)[of x] have "f x \<noteq> c" by blast
    with False Cons show ?thesis by auto
  qed
qed

lemma rfind_lower:
  assumes "\<And>x. char_lower x = c \<longleftrightarrow> x = c"
  shows "rfind c (str_lower s) = rfind c s"
proof -
  have "index_of c (map char_lower (rev s)) = index_of c (rev s)"
    using assms by (intro index_of_map) auto
  then show ?thesis
    by (simp add: rfind_def str_lower_def rev_map split: option.split)
qed

lemma list_ex_not_dot_lower:
  "list_ex (\<lambda>c. c \<noteq> CHR ''.'') (map char_lower xs) = list_ex (\<lambda>c. c \<noteq> CHR ''.'') xs"
  by (induction xs) (auto simp: char_lower_dot)

lemma splitext_lower:
  "splitext (str_lower p) = (str_lower (fst (splitext p)), str_lower (snd (splitext p)))"
proof -
  define sepIndex where "sepIndex = rfind CHR ''/'' p"
  define dotIndex where "dotIndex = rfind CHR ''.'' p"
  define has_ext where "has_ext \<longleftrightarrow> dotIndex > sepIndex \<and>
         list_ex (\<lambda>c. c \<noteq> CHR ''.'')
           (take (nat (dotIndex - (sepIndex + 1))) (drop (nat (sepIndex + 1)) p))"
  have 1: "splitext p = (if has_ext then (take (nat dotIndex) p, drop (nat dotIndex) p) else (p, []))"
    by (simp add: splitext_def Let_def has_ext_def sepIndex_def dotIndex_def)
  have "list_ex (\<lambda>c. c \<noteq> CHR ''.'')
           (take (nat (dotIndex - (sepIndex + 1))) (drop (nat (sepIndex + 1)) (str_lower p))) =
        list_ex (\<lambda>c. c \<noteq> CHR ''.'')
           (take (nat (dotIndex - (sepIndex + 1))) (drop (nat (sepIndex + 1)) p))"
    using list_ex_not_dot_lower[of "take (nat (dotIndex - (sepIndex + 1))) (drop (nat (sepIndex + 1)) p)"]
    by (simp add: str_lower_def take_map drop_map)
  then have 2: "splitext (str_lower p) =
      (if has_ext then (take (nat dotIndex) (str_lower p), drop (nat dotIndex) (str_lower p))
       else (str_lower p, []))"
    by (simp add: splitext_def Let_def has_ext_def sepIndex_def dotIndex_def
        rfind_lower char_lower_dot char_lower_sep)
  show ?thesis
    unfolding 1 2 by (simp add: str_lower_def take_map drop_map)
qed

lemma is_image_file_iff:
  "is_image_file image_open p \<longleftrightarrow>
     snd (splitext (str_lower p)) \<in> SUPPORTED_IMAGE_EXTENSIONS \<and>
     (\<exists>fmt. image_open p = Inr (Some fmt))"
  by (cases "image_open p") (auto simp: is_image_file_def Let_def)

lemma splitext_examples:
  "splitext ''scan.PNG'' = (''scan'', ''.PNG'')"
  "splitext ''photo.Jpg'' = (''photo'', ''.Jpg'')"
  "splitext ''notes.png'' = (''notes'', ''.png'')"
  "splitext ''missing.png'' = (''missing'', ''.png'')"
  "splitext ''photo.pdf'' = (''photo'', ''.pdf'')"
  by (simp_all add: splitext_def rfind_def Let_def)

lemma str_lower_examples:
  "str_lower ''.PNG'' = ''.png''" "str_lower ''.Jpg'' = ''.jpg''"
  "str_lower ''.png'' = ''.png''" "str_lower ''.pdf'' = ''.pdf''"
  by code_simp+

text \<open>
  C5. \<open>is_image_file\<close> answers \<open>True\<close> (an image) exactly when the extension of the
  path, in lower case, is one of the supported extensions and \<open>Image.open\<close> opens the file
  and finds a format. In every other case, a file whose content is no image under an
  image's name and a file that cannot be read among them, it answers \<open>False\<close> (a
  document): every error of \<open>Image.open\<close> becomes this answer, none is raised.
\<close>

theorem image_iff_extension_and_content:
  "is_image_file image_open p \<longleftrightarrow>
     snd (splitext (str_lower p)) \<in> SUPPORTED_IMAGE_EXTENSIONS \<and>
     (\<exists>fmt. image_open p = Inr (Some fmt))"
  by (rule is_image_file_iff)

theorem image_iff_extension_and_content_witness:
  "is_image_file sample_image_open ''scan.PNG'' \<and>
   \<not> is_image_file sample_image_open ''notes.png'' \<and>
   \<not> is_image_file sample_image_open ''missing.png'' \<and>
   \<not> is_image_file sample_image_open ''photo.pdf''"
  using image_iff_extension_and_content [of sample_image_open "''scan.PNG''"]
    image_iff_extension_and_content [of sample_image_open "''notes.png''"]
    image_iff_extension_and_content [of sample_image_open "''missing.png''"]
    image_iff_extension_and_content [of sample_image_open "''photo.pdf''"]
  by (simp add: splitext_lower splitext_examples str_lower_examples sample_image_open_def
      SUPPORTED_IMAGE_EXTENSIONS_def)

text \<open>
  C10. The path is put in lower case as a whole before the extension is taken, and
  that is the extension of the path put in lower case: the answer depends on the
  extension through its lower-case form only. A file that \<open>Image.open\<close> opens is an image
  under \<open>.PNG\<close> or \<open>.Jpg\<close> as it is under \<open>.png\<close> or \<open>.jpg\<close>.
\<close>

theorem extension_case_insensitive:
  "snd (splitext (str_lower p)) = str_lower (snd (splitext p)) \<and>
   (is_image_file image_open p \<longleftrightarrow>
      str_lower (snd (splitext p)) \<in> SUPPORTED_IMAGE_EXTENSIONS \<and>
      (\<exists>fmt. image_open p = Inr (Some fmt)))"
  by (simp add: is_image_file_iff splitext_lower)

theorem extension_case_insensitive_witness:
  "snd (splitext ''scan.PNG'') = ''.PNG'' \<and> str_lower ''.PNG'' = ''.png'' \<and>
   is_image_file sample_image_open ''scan.PNG'' \<and>
   snd (splitext ''photo.Jpg'') = ''.Jpg'' \<and> str_lower ''.Jpg'' = ''.jpg'' \<and>
   is_image_file sample_image_open ''photo.Jpg''"
  using extension_case_insensitive [of "''scan.PNG''" sample_image_open]
    extension_case_insensitive [of "''photo.Jpg''" sample_image_open]
  by (simp add: splitext_examples str_lower_examples sample_image_open_def
      SUPPORTED_IMAGE_EXTENSIONS_def)

section \<open>The output directory of a run: properties\<close>


lemma digit_not_sep: "digit n \<noteq> CHR ''/''"
proof
  assume "digit n = CHR ''/''"
  then have "(of_char (digit n) :: nat) = of_char CHR ''/''" by simp
  then show False by (simp add: digit_def)
qed

lemma strftime_not_absolute: "\<not> prefix ''/'' (strftime t @ s)"
  by (simp add: strftime_def digit_not_sep[symmetric])

lemma path_name_no_sep: "CHR ''/'' \<notin> set (path_name p)"
proof (cases "filter (\<lambda>c. c \<noteq> [] \<and> c \<noteq> ''.'') (split_on CHR ''/'' p) = []")
  case True
  then show ?thesis by (simp add: path_name_def)
next
  case False
  then have "last (filter (\<lambda>c. c \<noteq> [] \<and> c \<noteq> ''.'') (split_on CHR ''/'' p))
      \<in> set (filter (\<lambda>c. c \<noteq> [] \<and> c \<noteq> ''.'') (split_on CHR ''/'' p))"
    by (rule last_in_set)
  then have "path_name p \<in> set (split_on CHR ''/'' p)"
    using False by (simp add: path_name_def)
  then show ?thesis by (rule split_on_no_sep)
qed

lemma path_stem_no_sep: "CHR ''/'' \<notin> set (path_stem p)"
  using path_name_no_sep[of p] by (auto simp: path_stem_def Let_def dest: in_set_takeD)

lemma path_suffix_no_sep: "CHR ''/'' \<notin> set (path_suffix p)"
  using path_name_no_sep[of p] by (auto simp: path_suffix_def Let_def dest: in_set_dropD)


lemma digit_eq_iff: "digit a = digit b \<longleftrightarrow> a mod 10 = b mod 10"
proof
  assume "digit a = digit b"
  then have "(of_char (digit a) :: nat) = of_char (digit b)" by simp
  then show "a mod 10 = b mod 10" by (simp add: digit_def)
next
  assume "a mod 10 = b mod 10"
  then show "digit a = digit b" by (simp add: digit_def)
qed




text \<open>The directories that \<open>os.makedirs\<close> makes.\<close>

lemma ancestors_outputs: "ancestors ''outputs'' = [''outputs'']"
  by (simp add: ancestors_def)




lemma run_dir_join_outputs:
  "path_join ''outputs'' (strftime now @ CHR ''_'' # path_stem p) = run_dir now p"
  using strftime_not_absolute[of now "''_'' @ path_stem p"]
  by (simp add: path_join_def run_dir_def)

text \<open>What \<open>create_output_directory\<close> has done when it returns, and when it raises.\<close>

lemma create_output_directory_Inr:
  assumes "create_output_directory now p w = (Inr d, w')"
  shows "d = run_dir now p"
    and "\<exists>w0. makedirs ''outputs'' w = (Inr (), w0) \<and> makedirs d w0 = (Inr (), w')"
    and "files w' = files w"
    and "trace w' = trace w @ [Makedirs ''outputs'', Makedirs d]"
    and "dirs w' = dirs w \<union> {''outputs''} \<union> set (ancestors d)"
proof -
  obtain m w0 where m: "makedirs ''outputs'' w = (m, w0)"
    by (cases "makedirs ''outputs'' w")
  obtain m' w2 where m': "makedirs (run_dir now p) w0 = (m', w2)"
    by (cases "makedirs (run_dir now p) w0")
  from assms m m' have r: "m = Inr ()" "m' = Inr ()" "d = run_dir now p" "w' = w2"
    by (auto simp: create_output_directory_def Let_def run_dir_join_outputs split: sum.splits)
  show "d = run_dir now p" by (rule r(3))
  from m m' r show "\<exists>w0. makedirs ''outputs'' w = (Inr (), w0) \<and> makedirs d w0 = (Inr (), w')"
    by simp
  from m m' r makedirs_Inr[of "''outputs''" w "()" w0] makedirs_Inr[of "run_dir now p" w0 "()" w2]
  show "files w' = files w" and "trace w' = trace w @ [Makedirs ''outputs'', Makedirs d]"
    and "dirs w' = dirs w \<union> {''outputs''} \<union> set (ancestors d)"
    by (simp_all add: ancestors_outputs)
qed

lemma create_output_directory_Inl:
  assumes "create_output_directory now p w = (Inl e, w')"
  shows "files w' = files w"
    and "trace w' = trace w \<or> trace w' = trace w @ [Makedirs ''outputs'']"
    and "dirs w' = dirs w \<or> dirs w' = dirs w \<union> {''outputs''}"
proof -
  obtain m w0 where m: "makedirs ''outputs'' w = (m, w0)"
    by (cases "makedirs ''outputs'' w")
  obtain m' w2 where m': "makedirs (run_dir now p) w0 = (m', w2)"
    by (cases "makedirs (run_dir now p) w0")
  have "files w' = files w \<and>
        (trace w' = trace w \<or> trace w' = trace w @ [Makedirs ''outputs'']) \<and>
        (dirs w' = dirs w \<or> dirs w' = dirs w \<union> {''outputs''})"
  proof (cases m)
    case (Inl e1)
    with assms m have "w' = w0" by (simp add: create_output_directory_def Let_def)
    with makedirs_Inl[of "''outputs''" w e1 w0] m Inl show ?thesis by simp
  next
    case (Inr u)
    with assms m m' obtain e2 where e2: "m' = Inl e2" "w' = w2"
      by (auto simp: create_output_directory_def Let_def run_dir_join_outputs split: sum.splits)
    with makedirs_Inl[of "run_dir now p" w0 e2 w2] m' have "w' = w0" by simp
    with makedirs_Inr[of "''outputs''" w u w0] m Inr show ?thesis
      by (simp add: ancestors_outputs)
  qed
  then show "files w' = files w"
    and "trace w' = trace w \<or> trace w' = trace w @ [Makedirs ''outputs'']"
    and "dirs w' = dirs w \<or> dirs w' = dirs w \<union> {''outputs''}"
    by simp_all
qed






lemma digit_values:
  "digit 0 = CHR ''0''" "digit 1 = CHR ''1''" "digit 2 = CHR ''2''" "digit 3 = CHR ''3''"
  "digit 4 = CHR ''4''" "digit 5 = CHR ''5''" "digit 6 = CHR ''6''" "digit 7 = CHR ''7''"
  "digit 8 = CHR ''8''" "digit 9 = CHR ''9''" "digit (Suc 0) = CHR ''1''"
  by code_simp+

lemma digit_mod: "digit n = digit (n mod 10)"
  by (simp add: digit_def)

lemma strftime_examples:
  "strftime now0 = ''20261104_070509''" "strftime now1 = ''20261104_070509''"
  "strftime now2 = ''20261104_070510''"
  by (simp_all add: strftime_def now0_def now1_def now2_def digit_mod[of 202] digit_mod[of 2026]
      digit_mod[of 20] digit_mod[of 11] digit_mod[of 10] digit_values)











section \<open>The remote OCR client: properties\<close>

lemma remote_calls_write_file [simp]: "remote_calls (trace (write_file p c w)) = remote_calls (trace w)"
  by (simp add: write_file_def remote_calls_def)

lemma remote_calls_makedirs:
  "remote_calls (trace (snd (makedirs p w))) = remote_calls (trace w)"
  by (simp add: makedirs_def remote_calls_def split: option.split)

lemma save_page_images_remote:
  "remote_calls (trace (snd (save_page_images dec d imgs pi w))) = remote_calls (trace w)"
  by (induction imgs arbitrary: pi w) (auto split: sum.splits)

lemma save_pages_remote:
  "remote_calls (trace (snd (save_pages dec d ps acc w))) = remote_calls (trace w)"
proof (induction ps arbitrary: acc w)
  case Nil
  show ?case by simp
next
  case (Cons p ps)
  obtain r w1 where r: "save_page_images dec d (images p) [] w = (r, w1)"
    by (cases "save_page_images dec d (images p) [] w")
  have w1: "remote_calls (trace w1) = remote_calls (trace w)"
    using save_page_images_remote[of dec d "images p" "[]" w] r by simp
  show ?case
  proof (cases r)
    case (Inl e)
    with r w1 show ?thesis by simp
  next
    case (Inr pi)
    with r w1 Cons.IH show ?thesis by simp
  qed
qed

lemma save_ocr_results_remote:
  "remote_calls (trace (snd (save_ocr_results dec r out w))) = remote_calls (trace w)"
proof -
  let ?d = "path_join out ''images''"
  obtain m w0 where m: "makedirs ?d w = (m, w0)"
    by (cases "makedirs ?d w")
  have w0: "remote_calls (trace w0) = remote_calls (trace w)"
    using remote_calls_makedirs[of ?d w] m by simp
  obtain res w1 where s: "save_pages dec ?d (pages r) [] w0 = (res, w1)"
    by (cases "save_pages dec ?d (pages r) [] w0")
  have "remote_calls (trace w1) = remote_calls (trace w0)"
    using save_pages_remote[of dec ?d "pages r" "[]" w0] s by simp
  with w0 m s show ?thesis
    by (cases m; cases res) (simp_all add: save_ocr_results_def Let_def)
qed

lemma copy2_cases:
  "copy2 src dst w = (r, w') \<Longrightarrow>
     (\<exists>e. r = Inl e \<and> w' = w) \<or>
     (\<exists>c. files w src = Some c \<and>
          r = Inr (if dst \<in> dirs w then path_join dst (basename src) else dst) \<and>
          w' = write_file (if dst \<in> dirs w then path_join dst (basename src) else dst) c w)"
  by (auto simp: copy2_def Let_def split: if_splits option.splits)

lemma index_of_None: "index_of c xs = None \<Longrightarrow> c \<notin> set xs"
  by (induction xs) (auto split: if_splits option.splits)

lemma index_of_Some: "index_of c xs = Some i \<Longrightarrow> i < length xs \<and> c \<notin> set (take i xs)"
  by (induction xs arbitrary: i) (auto split: if_splits option.splits)

lemma basename_no_sep: "CHR ''/'' \<notin> set (basename p)"
proof (cases "index_of CHR ''/'' (rev p)")
  case None
  then show ?thesis
    using index_of_None[of "CHR ''/''" "rev p"] by (simp add: basename_def rfind_def)
next
  case (Some i)
  from index_of_Some[OF Some] have i: "i < length p" and n: "CHR ''/'' \<notin> set (take i (rev p))"
    by simp_all
  have "nat (int (length p) - 1 - int i + 1) = length p - i"
    using i by simp
  then have "basename p = drop (length p - i) p"
    using Some by (simp add: basename_def rfind_def)
  with n show ?thesis by (simp add: take_rev)
qed

lemma path_join_relative:
  "\<not> prefix ''/'' b \<Longrightarrow> path_join a b = a @ b \<or> path_join a b = a @ ''/'' @ b"
  by (simp add: path_join_def)

lemma run_dir_join:
  assumes "\<not> prefix ''/'' x"
  shows "path_join (run_dir now p) x = run_dir now p @ ''/'' @ x"
proof -
  have "last (''outputs/'' @ strftime now @ ''_'' @ path_stem p) \<noteq> CHR ''/''"
  proof (cases "path_stem p = []")
    case True
    then show ?thesis by simp
  next
    case False
    then have "last (path_stem p) \<in> set (path_stem p)" by (rule last_in_set)
    with path_stem_no_sep[of p] have "last (path_stem p) \<noteq> CHR ''/''" by metis
    with False show ?thesis by simp
  qed
  with assms show ?thesis
    by (simp add: run_dir_def path_join_def)
qed

lemma prepare_Some [simp]: "process_pdf_prepare now p (Some d) w = (Inr d, w)"
  by (simp add: process_pdf_prepare_def)

lemma prepare_None:
  "process_pdf_prepare now p None w =
     (case create_output_directory now p w of
        (Inl e, w1) \<Rightarrow> (Inl e, w1)
      | (Inr d, w1) \<Rightarrow>
          (case copy2 p (path_join d (''origin'' @ path_suffix p)) w1 of
             (Inl e, w2) \<Rightarrow> (Inl e, w2)
           | (Inr t, w2) \<Rightarrow> (Inr d, w2)))"
  by (simp add: process_pdf_prepare_def Let_def split: prod.split sum.split)

text \<open>What the preparation does when it succeeds.\<close>

lemma prepare_Inr:
  assumes "fst (process_pdf_prepare now p od w) = Inr d"
  shows "(od = Some d \<and> snd (process_pdf_prepare now p od w) = w) \<or>
         (od = None \<and> d = run_dir now p \<and>
          (\<exists>w1 c t. create_output_directory now p w = (Inr d, w1) \<and> files w p = Some c \<and>
                 (t = d @ ''/origin'' @ path_suffix p \<or>
                  t = d @ ''/origin'' @ path_suffix p @ basename p \<or>
                  t = d @ ''/origin'' @ path_suffix p @ ''/'' @ basename p) \<and>
                 snd (process_pdf_prepare now p od w) = write_file t c w1))"
proof (cases od)
  case (Some d')
  with assms show ?thesis by simp
next
  case None
  obtain r0 w1 where cr: "create_output_directory now p w = (r0, w1)"
    by (cases "create_output_directory now p w")
  from assms None cr obtain d0 where r0: "r0 = Inr d0"
    by (cases r0) (simp_all add: prepare_None)
  note made = cr[unfolded r0]
  note m = create_output_directory_Inr[OF made]
  let ?o = "path_join d0 (''origin'' @ path_suffix p)"
  have o: "?o = d0 @ ''/origin'' @ path_suffix p"
    unfolding m(1) by (simp add: run_dir_join)
  obtain r w2 where c2: "copy2 p ?o w1 = (r, w2)" by (cases "copy2 p ?o w1")
  from copy2_cases[OF c2] assms None made c2
  obtain c where c: "files w1 p = Some c"
    and r: "r = Inr (if ?o \<in> dirs w1 then path_join ?o (basename p) else ?o)"
    and w2: "w2 = write_file (if ?o \<in> dirs w1 then path_join ?o (basename p) else ?o) c w1"
    by (auto simp: prepare_None)
  have d: "d = d0" using assms None made c2 r by (simp add: prepare_None)
  have snd: "snd (process_pdf_prepare now p od w) = w2"
    using None made c2 r by (simp add: prepare_None)
  have b: "\<not> prefix ''/'' (basename p)"
    using basename_no_sep[of p] by (cases "basename p") auto
  have pj: "path_join ?o (basename p) = ?o @ basename p \<or>
            path_join ?o (basename p) = ?o @ ''/'' @ basename p"
    by (rule path_join_relative[OF b])
  have t: "(if ?o \<in> dirs w1 then path_join ?o (basename p) else ?o) = d0 @ ''/origin'' @ path_suffix p \<or>
           (if ?o \<in> dirs w1 then path_join ?o (basename p) else ?o) = d0 @ ''/origin'' @ path_suffix p @ basename p \<or>
           (if ?o \<in> dirs w1 then path_join ?o (basename p) else ?o) = d0 @ ''/origin'' @ path_suffix p @ ''/'' @ basename p"
    using pj unfolding o by (cases "d0 @ ''/origin'' @ path_suffix p \<in> dirs w1") auto
  from c have c': "files w p = Some c" by (simp add: m(3))
  show ?thesis
    using None d m(1) made c' t snd w2 by blast
qed

lemma copy2_no_source:
  assumes "files w src = None"
  shows "\<exists>e. copy2 src dst w = (Inl e, w) \<and> (src \<notin> dirs w \<longrightarrow> e = FileNotFoundError src)"
  using assms by (auto simp: copy2_def Let_def domIff)

lemma outputs_not_below_run_dir: "''outputs'' \<noteq> run_dir now p @ x"
  by (simp add: run_dir_def)

lemma prepare_effects:
  assumes "fst (process_pdf_prepare now p od w) = Inr d"
  shows "\<exists>evs. trace (snd (process_pdf_prepare now p od w)) = trace w @ evs \<and>
               (\<forall>ev \<in> set evs. \<not> assembly_effect d ev \<and> \<not> is_remote ev)"
    and "q = path_join d ''complete.md'' \<or> under (path_join d ''images'') q \<Longrightarrow>
           files (snd (process_pdf_prepare now p od w)) q = files w q"
    and "files w p = Some c \<Longrightarrow> files (snd (process_pdf_prepare now p od w)) p = Some c"
proof -
  let ?w' = "snd (process_pdf_prepare now p od w)"
  let ?d = "run_dir now p"
  from prepare_Inr[OF assms] consider
    (given) "od = Some d" "?w' = w"
    | (created) w1 c' t where "od = None" "d = ?d" "files w p = Some c'"
        "t = d @ ''/origin'' @ path_suffix p \<or>
         t = d @ ''/origin'' @ path_suffix p @ basename p \<or>
         t = d @ ''/origin'' @ path_suffix p @ ''/'' @ basename p"
        "?w' = write_file t c' w1" "create_output_directory now p w = (Inr d, w1)"
    by blast
  note cases = this
  have jc: "path_join ?d ''complete.md'' = ?d @ ''/complete.md''"
    and ji: "path_join ?d ''images'' = ?d @ ''/images''"
    by (simp_all add: run_dir_join)
  show "\<exists>evs. trace ?w' = trace w @ evs \<and> (\<forall>ev \<in> set evs. \<not> assembly_effect d ev \<and> \<not> is_remote ev)"
  proof (cases rule: cases)
    case given
    then show ?thesis by simp
  next
    case created
    have "trace ?w' = trace w @ [Makedirs ''outputs'', Makedirs d, WriteFile t c']"
      unfolding created(5)
      by (simp add: write_file_def create_output_directory_Inr(4)[OF created(6)])
    moreover have "\<not> assembly_effect d (Makedirs ''outputs'')"
      unfolding created(2) by (simp add: ji outputs_not_below_run_dir)
    moreover have "\<not> assembly_effect d (Makedirs d)"
      unfolding created(2) by (simp add: ji)
    moreover have "\<not> assembly_effect d (WriteFile t c')"
      using created(4) unfolding created(2) by (auto simp: ji jc under_def)
    ultimately show ?thesis by simp
  qed
  show "files ?w' q = files w q"
    if "q = path_join d ''complete.md'' \<or> under (path_join d ''images'') q"
  proof (cases rule: cases)
    case given
    then show ?thesis by simp
  next
    case created
    have "q \<noteq> t"
      using that created(4) unfolding created(2) by (auto simp: ji jc under_def)
    then show ?thesis
      unfolding created(5)
      by (simp add: write_file_def create_output_directory_Inr(3)[OF created(6)])
  qed
  show "files ?w' p = Some c" if "files w p = Some c"
  proof (cases rule: cases)
    case given
    with that show ?thesis by simp
  next
    case created
    with that show ?thesis
      by (simp add: write_file_def create_output_directory_Inr(3)[OF created(6)])
  qed
qed

lemma create_output_directory_remote:
  "remote_calls (trace (snd (create_output_directory now p w))) = remote_calls (trace w)"
proof -
  obtain r0 w1 where cr: "create_output_directory now p w = (r0, w1)"
    by (cases "create_output_directory now p w")
  show ?thesis
  proof (cases r0)
    case (Inl e)
    from create_output_directory_Inl(2)[OF cr[unfolded Inl]] cr show ?thesis
      by (auto simp: remote_calls_def)
  next
    case (Inr d)
    from create_output_directory_Inr(4)[OF cr[unfolded Inr]] cr show ?thesis
      by (simp add: remote_calls_def)
  qed
qed

lemma prepare_remote:
  "remote_calls (trace (snd (process_pdf_prepare now p od w))) = remote_calls (trace w)"
proof (cases od)
  case (Some d)
  then show ?thesis by simp
next
  case None
  obtain r0 w1 where cr: "create_output_directory now p w = (r0, w1)"
    by (cases "create_output_directory now p w")
  have w1: "remote_calls (trace w1) = remote_calls (trace w)"
    using create_output_directory_remote[of now p w] cr by simp
  show ?thesis
  proof (cases r0)
    case (Inl e)
    with cr None w1 show ?thesis by (simp add: prepare_None)
  next
    case (Inr d)
    obtain r w2 where c2: "copy2 p (path_join d (''origin'' @ path_suffix p)) w1 = (r, w2)"
      by (cases "copy2 p (path_join d (''origin'' @ path_suffix p)) w1")
    from copy2_cases[OF c2] have "remote_calls (trace w2) = remote_calls (trace w1)"
      by auto
    with w1 cr c2 None Inr show ?thesis
      by (cases r) (simp_all add: prepare_None)
  qed
qed

text \<open>A preparation that raises ends the run: its error is the error of \<open>process_pdf\<close>.\<close>

lemma process_pdf_not_prepared:
  assumes "fst (process_pdf_prepare now p od w) = Inl e"
  shows "fst (process_pdf M dec now p key od w) = Inl e"
    and "remote_calls (trace (snd (process_pdf M dec now p key od w))) = remote_calls (trace w)"
proof -
  obtain w1 where pp: "process_pdf_prepare now p od w = (Inl e, w1)"
    using assms by (cases "process_pdf_prepare now p od w") simp
  have p: "process_pdf M dec now p key od w = (Inl e, w1)"
    by (simp add: process_pdf_def pp)
  show "fst (process_pdf M dec now p key od w) = Inl e"
    by (simp add: p)
  show "remote_calls (trace (snd (process_pdf M dec now p key od w))) = remote_calls (trace w)"
    using prepare_remote[of now p od w] by (simp add: p pp)
qed

text \<open>The run after a preparation that succeeded, for a document that is there.\<close>

lemma process_pdf_uploaded:
  assumes prep: "fst (process_pdf_prepare now p od w) = Inr d"
    and doc: "files w p = Some content"
    and up: "files_upload (M key) (path_stem p) content ''ocr'' = Inr file_id"
    and url: "files_get_signed_url (M key) file_id 1 = Inr signed_url"
  shows "process_pdf M dec now p key od w =
     (case ocr_process (M key) signed_url ''mistral-ocr-latest'' True of
        Inl e \<Rightarrow>
          (Inl e,
           remote_call (OcrProcess signed_url ''mistral-ocr-latest'' True)
             (remote_call (FilesGetSignedUrl file_id 1)
               (remote_call (FilesUpload (path_stem p) content ''ocr'')
                 (snd (process_pdf_prepare now p od w)))))
      | Inr pdf_response \<Rightarrow>
          save_ocr_results dec pdf_response d
            (remote_call (OcrProcess signed_url ''mistral-ocr-latest'' True)
              (remote_call (FilesGetSignedUrl file_id 1)
                (remote_call (FilesUpload (path_stem p) content ''ocr'')
                  (snd (process_pdf_prepare now p od w))))))"
proof -
  obtain w1 where pp: "process_pdf_prepare now p od w = (Inr d, w1)"
    using prep by (cases "process_pdf_prepare now p od w") simp
  have f: "files w1 p = Some content"
    using prepare_effects(3)[OF prep doc] pp by simp
  show ?thesis
    by (simp add: process_pdf_def pp f up url Let_def split: sum.split)
qed

lemma process_pdf_remote_calls:
  assumes prep: "fst (process_pdf_prepare now p od w) = Inr d"
    and doc: "files w p = Some content"
    and up: "files_upload (M key) (path_stem p) content ''ocr'' = Inr file_id"
    and url: "files_get_signed_url (M key) file_id 1 = Inr signed_url"
  shows "remote_calls (trace (snd (process_pdf M dec now p key od w))) =
           remote_calls (trace w) @
           [FilesUpload (path_stem p) content ''ocr'',
            FilesGetSignedUrl file_id 1,
            OcrProcess signed_url ''mistral-ocr-latest'' True]"
proof -
  have "remote_calls (trace (snd (process_pdf M dec now p key od w))) =
      remote_calls (trace (snd (process_pdf_prepare now p od w))) @
           [FilesUpload (path_stem p) content ''ocr'',
            FilesGetSignedUrl file_id 1,
            OcrProcess signed_url ''mistral-ocr-latest'' True]"
    unfolding process_pdf_uploaded[where M=M and key=key and dec=dec, OF prep doc up url]
    by (cases "ocr_process (M key) signed_url ''mistral-ocr-latest'' True")
       (simp_all add: save_ocr_results_remote, simp_all add: remote_call_def remote_calls_def)
  then show ?thesis by (simp add: prepare_remote)
qed

lemma path_examples:
  "path_stem ''outputs'' = ''outputs''" "path_suffix ''outputs'' = []"
  "path_stem ''in/doc.pdf'' = ''doc''" "path_suffix ''in/doc.pdf'' = ''.pdf''"
  "path_stem ''in/missing.pdf'' = ''missing''" "path_suffix ''in/missing.pdf'' = ''.pdf''"
  "path_name ''in/doc.pdf'' = ''doc.pdf''" "basename ''in/doc.pdf'' = ''doc.pdf''"
  by (simp_all add: path_stem_def path_suffix_def path_name_def rfind_def basename_def)

lemma run_dir_examples:
  "run_dir now0 ''outputs'' = ''outputs/20261104_070509_outputs''"
  "run_dir now0 ''in/doc.pdf'' = ''outputs/20261104_070509_doc''"
  "run_dir now0 ''in/missing.pdf'' = ''outputs/20261104_070509_missing''"
  by (simp_all add: run_dir_def path_examples strftime_examples)

lemma created_examples:
  "create_output_directory now0 ''outputs'' empty_world =
     (Inr ''outputs/20261104_070509_outputs'',
      \<lparr>files = Map.empty, dirs = {''outputs'', ''outputs/20261104_070509_outputs''},
       trace = [Makedirs ''outputs'', Makedirs ''outputs/20261104_070509_outputs'']\<rparr>)"
  "create_output_directory now0 ''in/missing.pdf'' empty_world =
     (Inr ''outputs/20261104_070509_missing'',
      \<lparr>files = Map.empty, dirs = {''outputs'', ''outputs/20261104_070509_missing''},
       trace = [Makedirs ''outputs'', Makedirs ''outputs/20261104_070509_missing'']\<rparr>)"
  "create_output_directory now0 ''in/doc.pdf'' pdf_world =
     (Inr ''outputs/20261104_070509_doc'',
      \<lparr>files = [''in/doc.pdf'' \<mapsto> Bytes [37, 80, 68, 70]],
       dirs = {''in'', ''outputs'', ''outputs/20261104_070509_doc''},
       trace = [Makedirs ''outputs'', Makedirs ''outputs/20261104_070509_doc'']\<rparr>)"
  "create_output_directory now0 ''outputs'' outputs_file_world =
     (Inl (FileExistsError ''outputs''), outputs_file_world)"
  by (auto simp: create_output_directory_def Let_def run_dir_join_outputs run_dir_examples
      makedirs_def ancestors_def empty_world_def pdf_world_def outputs_file_world_def)

lemma outputs_as_document:
  "fst (process_pdf sample_client base64_b64decode now0 ''outputs'' ''key'' None empty_world) =
     Inl (IsADirectoryError ''outputs'')"
  by (simp add: process_pdf_def prepare_None created_examples copy2_def Let_def path_examples
      path_join_def)

lemma outputs_file_as_document:
  "process_pdf sample_client base64_b64decode now0 ''outputs'' ''key'' None outputs_file_world =
     (Inl (FileExistsError ''outputs''), outputs_file_world)"
  by (simp add: process_pdf_def prepare_None created_examples)

lemma doc_prepared: "fst (process_pdf_prepare now0 ''in/doc.pdf'' None pdf_world) = Inr ''outputs/20261104_070509_doc''"
  by (simp add: prepare_None created_examples copy2_def Let_def path_examples path_join_def)

text \<open>
  For a document path that names neither a file nor a directory, \<open>process_pdf\<close> raises
  and makes no remote call. The error is \<open>FileNotFoundError\<close> with the path when an output
  directory is passed (line 168), and also when none is passed and the output directory
  is created (there \<open>shutil.copy2\<close> raises it, line 162) unless the path names a directory
  that \<open>create_output_directory\<close> has just made.
\<close>

lemma missing_document_no_remote_call:
  assumes "files w pdf_path = None" and "pdf_path \<notin> dirs w"
  shows "remote_calls (trace (snd (process_pdf M dec now pdf_path key od w))) =
           remote_calls (trace w) \<and>
         (\<exists>e. fst (process_pdf M dec now pdf_path key od w) = Inl e) \<and>
         (od \<noteq> None \<or>
          (\<exists>d. fst (create_output_directory now pdf_path w) = Inr d) \<and>
          pdf_path \<notin> dirs (snd (create_output_directory now pdf_path w)) \<longrightarrow>
            fst (process_pdf M dec now pdf_path key od w) = Inl (FileNotFoundError pdf_path))"
proof (cases od)
  case (Some d)
  with assms show ?thesis by (simp add: process_pdf_def)
next
  case None
  obtain r0 w1 where cr: "create_output_directory now pdf_path w = (r0, w1)"
    by (cases "create_output_directory now pdf_path w")
  have rc: "remote_calls (trace w1) = remote_calls (trace w)"
    using create_output_directory_remote[of now pdf_path w] cr by simp
  show ?thesis
  proof (cases r0)
    case (Inl e)
    with cr None rc show ?thesis by (simp add: process_pdf_def prepare_None)
  next
    case (Inr d)
    let ?o = "path_join d (''origin'' @ path_suffix pdf_path)"
    have "files w1 pdf_path = None"
      using assms(1) create_output_directory_Inr(3)[OF cr[unfolded Inr]] by simp
    from copy2_no_source[OF this, of ?o] obtain e where
      e: "copy2 pdf_path ?o w1 = (Inl e, w1)"
         "pdf_path \<notin> dirs w1 \<longrightarrow> e = FileNotFoundError pdf_path"
      by blast
    have p: "process_pdf M dec now pdf_path key od w = (Inl e, w1)"
      using None cr Inr e(1) by (simp add: process_pdf_def prepare_None)
    from p e(2) None rc cr Inr show ?thesis by simp
  qed
qed

lemma missing_document_example:
  "fst (process_pdf sample_client base64_b64decode now0 ''in/missing.pdf'' ''key'' None empty_world) =
     Inl (FileNotFoundError ''in/missing.pdf'') \<and>
   remote_calls (trace (snd (process_pdf sample_client base64_b64decode now0 ''in/missing.pdf''
                              ''key'' None empty_world))) = []"
  using missing_document_no_remote_call [of empty_world "''in/missing.pdf''" sample_client
      base64_b64decode now0 "''key''" None]
  by (simp add: created_examples) (simp add: empty_world_def remote_calls_def)

text \<open>
  C6, at the input where the code departs from it. Called without an output directory
  for the path \<open>outputs\<close>, in a working directory that holds nothing,
  \<open>process_pdf\<close> first creates the directory \<open>outputs\<close> (line 160) and then copies the
  document (line 162): what is raised is \<open>IsADirectoryError\<close>, not \<open>FileNotFoundError\<close>. With
  an output directory passed, the same path raises \<open>FileNotFoundError\<close>.
\<close>

theorem missing_document_named_outputs:
  "files empty_world ''outputs'' = None \<and> ''outputs'' \<notin> dirs empty_world \<and>
   fst (process_pdf sample_client base64_b64decode now0 ''outputs'' ''key'' None empty_world) =
     Inl (IsADirectoryError ''outputs'') \<and>
   fst (process_pdf sample_client base64_b64decode now0 ''outputs'' ''key'' (Some ''out'')
          empty_world) = Inl (FileNotFoundError ''outputs'')"
  using outputs_as_document by (simp add: process_pdf_def empty_world_def)

text \<open>
  C7, as amended. Let the document exist. When the preparation of the output directory
  raises (no directory is passed, and creating one or copying the document into it
  fails), \<open>process_pdf\<close> raises that error and makes no remote call. When the output
  directory is there (passed, or created with the copy of the document) and the upload
  and the signing return, the remote calls of \<open>process_pdf\<close> are, in this order and with
  no other remote call before, between or after them: the upload of the content of the
  file, under the name of the file without its extension (\<open>Path.stem\<close>) and the
  purpose \<open>ocr\<close>; with the identifier it returns, the request of a signed URL with
  expiry \<open>1\<close>; with the URL it returns, the OCR job with the model \<open>mistral-ocr-latest\<close>
  and inline base64 images requested. This holds whatever the OCR job answers and
  whatever the assembly does afterwards.
\<close>

theorem remote_steps_in_order:
  assumes doc: "files w pdf_path = Some content"
  shows "(fst (process_pdf_prepare now pdf_path od w) = Inl e \<longrightarrow>
            fst (process_pdf M dec now pdf_path key od w) = Inl e \<and>
            remote_calls (trace (snd (process_pdf M dec now pdf_path key od w))) =
              remote_calls (trace w)) \<and>
         (fst (process_pdf_prepare now pdf_path od w) = Inr d \<and>
          files_upload (M key) (path_stem pdf_path) content ''ocr'' = Inr file_id \<and>
          files_get_signed_url (M key) file_id 1 = Inr signed_url \<longrightarrow>
            remote_calls (trace (snd (process_pdf M dec now pdf_path key od w))) =
              remote_calls (trace w) @
              [FilesUpload (path_stem pdf_path) content ''ocr'',
               FilesGetSignedUrl file_id 1,
               OcrProcess signed_url ''mistral-ocr-latest'' True])"
  using process_pdf_not_prepared[of now pdf_path od w e M dec key]
    process_pdf_remote_calls[where M = M and key = key and dec = dec, OF _ doc]
  by blast

theorem remote_steps_in_order_witness:
  "fst (process_pdf_prepare now0 ''in/doc.pdf'' None pdf_world) = Inr ''outputs/20261104_070509_doc'' \<and>
   files pdf_world ''in/doc.pdf'' = Some (Bytes [37, 80, 68, 70]) \<and>
   remote_calls (trace (snd (process_pdf sample_client base64_b64decode now0 ''in/doc.pdf'' ''key''
                              None pdf_world))) =
     [FilesUpload ''doc'' (Bytes [37, 80, 68, 70]) ''ocr'',
      FilesGetSignedUrl ''file-doc'' 1,
      OcrProcess ''https://signed/file-doc'' ''mistral-ocr-latest'' True] \<and>
   fst (process_pdf_prepare now0 ''outputs'' None outputs_file_world) =
     Inl (FileExistsError ''outputs'') \<and>
   remote_calls (trace (snd (process_pdf sample_client base64_b64decode now0 ''outputs'' ''key''
                              None outputs_file_world))) = []"
proof -
  have doc: "files pdf_world ''in/doc.pdf'' = Some (Bytes [37, 80, 68, 70])"
    by (simp add: pdf_world_def)
  have doc': "files outputs_file_world ''outputs'' = Some (Bytes [37, 80, 68, 70])"
    by (simp add: outputs_file_world_def)
  have up: "files_upload (sample_client ''key'') (path_stem ''in/doc.pdf'') (Bytes [37, 80, 68, 70])
      ''ocr'' = Inr ''file-doc''"
    by (simp add: sample_client_def path_examples)
  have url: "files_get_signed_url (sample_client ''key'') ''file-doc'' 1 = Inr ''https://signed/file-doc''"
    by (simp add: sample_client_def)
  have np: "fst (process_pdf_prepare now0 ''outputs'' None outputs_file_world) =
      Inl (FileExistsError ''outputs'')"
    by (simp add: prepare_None created_examples)
  from remote_steps_in_order [where M = sample_client and key = "''key''"
      and dec = base64_b64decode and now = now0 and od = None
      and d = "''outputs/20261104_070509_doc''" and file_id = "''file-doc''"
      and signed_url = "''https://signed/file-doc''", OF doc] doc_prepared up url
  have 1: "remote_calls (trace (snd (process_pdf sample_client base64_b64decode now0 ''in/doc.pdf''
      ''key'' None pdf_world))) =
      remote_calls (trace pdf_world) @
      [FilesUpload (path_stem ''in/doc.pdf'') (Bytes [37, 80, 68, 70]) ''ocr'',
       FilesGetSignedUrl ''file-doc'' 1,
       OcrProcess ''https://signed/file-doc'' ''mistral-ocr-latest'' True]"
    by blast
  from remote_steps_in_order [where M = sample_client and key = "''key''"
      and dec = base64_b64decode and now = now0 and od = None
      and e = "FileExistsError ''outputs''", OF doc'] np
  have 2: "remote_calls (trace (snd (process_pdf sample_client base64_b64decode now0 ''outputs''
      ''key'' None outputs_file_world))) = remote_calls (trace outputs_file_world)"
    by blast
  from 1 have calls: "remote_calls (trace (snd (process_pdf sample_client base64_b64decode now0
      ''in/doc.pdf'' ''key'' None pdf_world))) =
     [FilesUpload ''doc'' (Bytes [37, 80, 68, 70]) ''ocr'',
      FilesGetSignedUrl ''file-doc'' 1,
      OcrProcess ''https://signed/file-doc'' ''mistral-ocr-latest'' True]"
    by (simp add: path_examples pdf_world_def remote_calls_def)
  from 2 have none: "remote_calls (trace (snd (process_pdf sample_client base64_b64decode now0
      ''outputs'' ''key'' None outputs_file_world))) = []"
    by (simp add: outputs_file_world_def remote_calls_def)
  from doc_prepared doc calls np none show ?thesis by (intro conjI)
qed

text \<open>
  C7 as stated fails at two inputs. The document \<open>outputs\<close> exists, as a regular file:
  without an output directory passed, \<open>os.makedirs\<close> raises \<open>FileExistsError\<close> (line 73),
  and no remote step is made. The document \<open>in/doc.pdf\<close> exists and its three remote steps
  are made: the name that goes with the upload is \<open>doc\<close>, not the base name \<open>doc.pdf\<close> of
  the file.
\<close>

theorem remote_steps_counterexample:
  "files outputs_file_world ''outputs'' = Some (Bytes [37, 80, 68, 70]) \<and>
   fst (process_pdf sample_client base64_b64decode now0 ''outputs'' ''key'' None
          outputs_file_world) = Inl (FileExistsError ''outputs'') \<and>
   remote_calls (trace (snd (process_pdf sample_client base64_b64decode now0 ''outputs'' ''key''
                              None outputs_file_world))) = [] \<and>
   files pdf_world ''in/doc.pdf'' = Some (Bytes [37, 80, 68, 70]) \<and>
   basename ''in/doc.pdf'' = ''doc.pdf'' \<and> path_name ''in/doc.pdf'' = ''doc.pdf'' \<and>
   remote_calls (trace (snd (process_pdf sample_client base64_b64decode now0 ''in/doc.pdf'' ''key''
                              None pdf_world))) =
     [FilesUpload ''doc'' (Bytes [37, 80, 68, 70]) ''ocr'',
      FilesGetSignedUrl ''file-doc'' 1,
      OcrProcess ''https://signed/file-doc'' ''mistral-ocr-latest'' True]"
proof -
  have doc: "files pdf_world ''in/doc.pdf'' = Some (Bytes [37, 80, 68, 70])"
    by (simp add: pdf_world_def)
  have up: "files_upload (sample_client ''key'') (path_stem ''in/doc.pdf'') (Bytes [37, 80, 68, 70])
      ''ocr'' = Inr ''file-doc''"
    by (simp add: sample_client_def path_examples)
  have url: "files_get_signed_url (sample_client ''key'') ''file-doc'' 1 = Inr ''https://signed/file-doc''"
    by (simp add: sample_client_def)
  from process_pdf_remote_calls [where M = sample_client and key = "''key''"
      and dec = base64_b64decode, OF doc_prepared doc up url]
  have 1: "remote_calls (trace (snd (process_pdf sample_client base64_b64decode now0
      ''in/doc.pdf'' ''key'' None pdf_world))) =
     [FilesUpload ''doc'' (Bytes [37, 80, 68, 70]) ''ocr'',
      FilesGetSignedUrl ''file-doc'' 1,
      OcrProcess ''https://signed/file-doc'' ''mistral-ocr-latest'' True]"
    by (simp add: path_examples pdf_world_def remote_calls_def)
  have 2: "files outputs_file_world ''outputs'' = Some (Bytes [37, 80, 68, 70])"
    and 3: "remote_calls (trace outputs_file_world) = []"
    by (simp_all add: outputs_file_world_def remote_calls_def)
  from 2 3 doc 1 show ?thesis
    by (simp add: outputs_file_as_document path_examples)
qed

text \<open>
  C9. When the upload and the signing succeed and the OCR job raises, \<open>process_pdf\<close>
  raises the very error of the job, and between the call and the error it has created
  no \<open>images\<close> directory and written neither \<open>complete.md\<close> nor a file below \<open>images\<close>
  in the output directory of the run: no such effect is in its trace, and these files
  are as they were before the call.
\<close>

theorem ocr_failure_leaves_no_assembly:
  assumes prep: "fst (process_pdf_prepare now pdf_path od w) = Inr d"
    and doc: "files w pdf_path = Some content"
    and up: "files_upload (M key) (path_stem pdf_path) content ''ocr'' = Inr file_id"
    and url: "files_get_signed_url (M key) file_id 1 = Inr signed_url"
    and fail: "ocr_process (M key) signed_url ''mistral-ocr-latest'' True = Inl e"
  shows "fst (process_pdf M dec now pdf_path key od w) = Inl e \<and>
         (\<exists>evs. trace (snd (process_pdf M dec now pdf_path key od w)) = trace w @ evs \<and>
                (\<forall>ev \<in> set evs. \<not> assembly_effect d ev)) \<and>
         (\<forall>q. q = path_join d ''complete.md'' \<or> under (path_join d ''images'') q \<longrightarrow>
                files (snd (process_pdf M dec now pdf_path key od w)) q = files w q)"
proof -
  let ?w1 = "snd (process_pdf_prepare now pdf_path od w)"
  have p: "process_pdf M dec now pdf_path key od w =
      (Inl e, remote_call (OcrProcess signed_url ''mistral-ocr-latest'' True)
             (remote_call (FilesGetSignedUrl file_id 1)
               (remote_call (FilesUpload (path_stem pdf_path) content ''ocr'') ?w1)))"
    unfolding process_pdf_uploaded[where M=M and key=key and dec=dec, OF prep doc up url] by (simp add: fail)
  from prepare_effects(1)[OF prep] obtain evs where
    evs: "trace ?w1 = trace w @ evs" "\<forall>ev \<in> set evs. \<not> assembly_effect d ev \<and> \<not> is_remote ev"
    by blast
  have tr: "\<exists>evs'. trace (snd (process_pdf M dec now pdf_path key od w)) = trace w @ evs' \<and>
                (\<forall>ev \<in> set evs'. \<not> assembly_effect d ev)"
    by (rule exI[of _ "evs @ [FilesUpload (path_stem pdf_path) content ''ocr'',
            FilesGetSignedUrl file_id 1, OcrProcess signed_url ''mistral-ocr-latest'' True]"])
       (use evs in \<open>auto simp: p remote_call_def\<close>)
  have fl: "files (snd (process_pdf M dec now pdf_path key od w)) q = files w q"
    if "q = path_join d ''complete.md'' \<or> under (path_join d ''images'') q" for q
    using prepare_effects(2)[OF prep that] by (simp add: p remote_call_def)
  from p tr fl show ?thesis by simp
qed

theorem ocr_failure_leaves_no_assembly_witness:
  "fst (process_pdf failing_client base64_b64decode now0 ''in/doc.pdf'' ''key'' None pdf_world) =
     Inl (RemoteServiceError ''503'') \<and>
   files (snd (process_pdf failing_client base64_b64decode now0 ''in/doc.pdf'' ''key'' None pdf_world))
     ''outputs/20261104_070509_doc/complete.md'' = None"
proof -
  have doc: "files pdf_world ''in/doc.pdf'' = Some (Bytes [37, 80, 68, 70])"
    by (simp add: pdf_world_def)
  have up: "files_upload (failing_client ''key'') (path_stem ''in/doc.pdf'') (Bytes [37, 80, 68, 70])
      ''ocr'' = Inr ''file-doc''"
    by (simp add: failing_client_def path_examples)
  have url: "files_get_signed_url (failing_client ''key'') ''file-doc'' 1 = Inr ''https://signed/file-doc''"
    by (simp add: failing_client_def)
  have fail: "ocr_process (failing_client ''key'') ''https://signed/file-doc'' ''mistral-ocr-latest'' True =
      Inl (RemoteServiceError ''503'')"
    by (simp add: failing_client_def)
  have j: "path_join ''outputs/20261104_070509_doc'' ''complete.md'' =
      ''outputs/20261104_070509_doc/complete.md''"
    by (simp add: path_join_def)
  note t = ocr_failure_leaves_no_assembly [where M = failing_client and key = "''key''"
      and dec = base64_b64decode, OF doc_prepared doc up url fail]
  from t have 1: "fst (process_pdf failing_client base64_b64decode now0 ''in/doc.pdf'' ''key'' None
      pdf_world) = Inl (RemoteServiceError ''503'')"
    by (rule conjunct1)
  from t have "files (snd (process_pdf failing_client base64_b64decode now0 ''in/doc.pdf'' ''key''
      None pdf_world)) (path_join ''outputs/20261104_070509_doc'' ''complete.md'') =
      files pdf_world (path_join ''outputs/20261104_070509_doc'' ''complete.md'')"
    by blast
  then have 2: "files (snd (process_pdf failing_client base64_b64decode now0 ''in/doc.pdf'' ''key''
      None pdf_world)) ''outputs/20261104_070509_doc/complete.md'' = None"
    unfolding j by (simp add: pdf_world_def)
  from 1 2 show ?thesis by (rule conjI)
qed

end
